theory Spec2Isabelle
  imports Main
begin

section \<open>JavaScript values\<close>

text \<open>
  Instances and schemas are untyped JSON-like trees. An object is an association list
  whose order is the enumeration order of its own keys (keys are assumed distinct, as in
  any JavaScript object); numbers are modelled as integers, strings as character lists.
  Members inherited from the built-in prototypes (\<open>constructor\<close>, \<open>toString\<close>, ...) are
  not part of the model: a property read sees own properties only, plus \<open>length\<close> and
  the indices of arrays and strings.
\<close>

datatype json =
    JUndefined
  | JNull
  | JBool bool
  | JNum int
  | JStr string
  | JArr "json list"
  | JObj "(string \<times> json) list"

datatype error = SchemaError string | TypeError | SyntaxError | RangeError

definition bindE :: "error + 'a \<Rightarrow> ('a \<Rightarrow> error + 'b) \<Rightarrow> error + 'b" where
  "bindE m f = (case m of Inl e \<Rightarrow> Inl e | Inr x \<Rightarrow> f x)"

fun js_truthy :: "json \<Rightarrow> bool" where
  "js_truthy JUndefined = False"
| "js_truthy JNull = False"
| "js_truthy (JBool b) = b"
| "js_truthy (JNum n) = (n \<noteq> 0)"
| "js_truthy (JStr s) = (s \<noteq> [])"
| "js_truthy (JArr xs) = True"
| "js_truthy (JObj kvs) = True"

fun isArray :: "json \<Rightarrow> bool" where
  "isArray (JArr xs) = True"
| "isArray v = False"

fun isNumber :: "json \<Rightarrow> bool" where
  "isNumber (JNum n) = True"
| "isNumber v = False"

text \<open>\<open>typeof v === 'object'\<close>: objects, arrays and \<open>null\<close>.\<close>

fun typeof_object :: "json \<Rightarrow> bool" where
  "typeof_object JNull = True"
| "typeof_object (JArr xs) = True"
| "typeof_object (JObj kvs) = True"
| "typeof_object v = False"

subsection \<open>Decimal numerals and string conversion\<close>

definition digit_char :: "nat \<Rightarrow> char" where
  "digit_char d = char_of (48 + d)"

fun showNat :: "nat \<Rightarrow> string" where
  "showNat n = (if n < 10 then [digit_char n] else showNat (n div 10) @ [digit_char (n mod 10)])"

declare showNat.simps [simp del]

definition showInt :: "int \<Rightarrow> string" where
  "showInt i = (if i < 0 then CHR ''-'' # showNat (nat (- i)) else showNat (nat i))"

fun intercalate :: "string \<Rightarrow> string list \<Rightarrow> string" where
  "intercalate sep [] = []"
| "intercalate sep [x] = x"
| "intercalate sep (x # y # ys) = x @ sep @ intercalate sep (y # ys)"

text \<open>\<open>String(v)\<close>, as string concatenation and \<open>toString\<close> apply it.\<close>

fun js_toString :: "json \<Rightarrow> string" where
  "js_toString JUndefined = ''undefined''"
| "js_toString JNull = ''null''"
| "js_toString (JBool b) = (if b then ''true'' else ''false'')"
| "js_toString (JNum n) = showInt n"
| "js_toString (JStr s) = s"
| "js_toString (JArr xs) =
     intercalate '','' (map (\<lambda>x. if x = JUndefined \<or> x = JNull then [] else js_toString x) xs)"
| "js_toString (JObj kvs) = ''[object Object]''"

subsection \<open>Property access\<close>

definition is_digit :: "char \<Rightarrow> bool" where
  "is_digit c = ((48::nat) \<le> of_char c \<and> of_char c \<le> (57::nat))"

definition readNat :: "string \<Rightarrow> nat" where
  "readNat s = foldl (\<lambda>acc c. 10 * acc + (of_char c - 48)) 0 s"

text \<open>A key is an array index when it is the canonical decimal numeral of a natural number.\<close>

definition index_of_key :: "string \<Rightarrow> nat option" where
  "index_of_key k =
     (if k \<noteq> [] \<and> list_all is_digit k \<and> (k = ''0'' \<or> hd k \<noteq> CHR ''0'')
      then Some (readNat k) else None)"

text \<open>\<open>base[key]\<close>: reading a property of \<open>null\<close> or \<open>undefined\<close> throws a TypeError.\<close>

fun js_get :: "json \<Rightarrow> string \<Rightarrow> error + json" where
  "js_get JUndefined k = Inl TypeError"
| "js_get JNull k = Inl TypeError"
| "js_get (JObj kvs) k = Inr (case map_of kvs k of None \<Rightarrow> JUndefined | Some v \<Rightarrow> v)"
| "js_get (JArr xs) k =
     Inr (if k = ''length'' then JNum (int (length xs))
          else case index_of_key k of
                 None \<Rightarrow> JUndefined
               | Some i \<Rightarrow> if i < length xs then xs ! i else JUndefined)"
| "js_get (JStr s) k =
     Inr (if k = ''length'' then JNum (int (length s))
          else case index_of_key k of
                 None \<Rightarrow> JUndefined
               | Some i \<Rightarrow> if i < length s then JStr [s ! i] else JUndefined)"
| "js_get v k = Inr JUndefined"

text \<open>\<open>Object.keys(v)\<close> (ES2015: primitives are coerced, \<open>null\<close> and \<open>undefined\<close> throw).\<close>

fun js_keys :: "json \<Rightarrow> error + string list" where
  "js_keys JUndefined = Inl TypeError"
| "js_keys JNull = Inl TypeError"
| "js_keys (JObj kvs) = Inr (map fst kvs)"
| "js_keys (JArr xs) = Inr (map showNat [0..<length xs])"
| "js_keys (JStr s) = Inr (map showNat [0..<length s])"
| "js_keys v = Inr []"

text \<open>The keys a \<open>for (k in v)\<close> loop visits; \<open>null\<close> and \<open>undefined\<close> give no iteration.\<close>

fun forin_keys :: "json \<Rightarrow> string list" where
  "forin_keys (JObj kvs) = map fst kvs"
| "forin_keys (JArr xs) = map showNat [0..<length xs]"
| "forin_keys (JStr s) = map showNat [0..<length s]"
| "forin_keys v = []"

text \<open>\<open>obj[key] = v\<close> on an object: an existing key keeps its place, a new key is added.\<close>

fun alist_set :: "(string \<times> json) list \<Rightarrow> string \<Rightarrow> json \<Rightarrow> (string \<times> json) list" where
  "alist_set [] k v = [(k, v)]"
| "alist_set ((k', v') # kvs) k v =
     (if k' = k then (k, v) # kvs else (k', v') # alist_set kvs k v)"

definition alist_delete :: "(string \<times> json) list \<Rightarrow> string \<Rightarrow> (string \<times> json) list" where
  "alist_delete kvs k = filter (\<lambda>kv. fst kv \<noteq> k) kvs"


subsection \<open>Operators\<close>

text \<open>The values of \<open>a && b\<close> and \<open>a || b\<close>; the operands used here have no effects.\<close>

definition js_and :: "json \<Rightarrow> json \<Rightarrow> json" where
  "js_and a b = (if js_truthy a then b else a)"

definition js_or :: "json \<Rightarrow> json \<Rightarrow> json" where
  "js_or a b = (if js_truthy a then a else b)"

text \<open>\<open>JSON.stringify\<close>: \<open>None\<close> stands for its result \<open>undefined\<close>.\<close>

definition hex_digit :: "nat \<Rightarrow> char" where
  "hex_digit d = (if d < 10 then char_of (48 + d) else char_of (87 + d))"

definition json_escape_char :: "char \<Rightarrow> string" where
  "json_escape_char c =
     (let n = (of_char c :: nat) in
      if n = 34 then [CHR 0x5C, CHR 0x22]
      else if n = 92 then [CHR 0x5C, CHR 0x5C]
      else if n = 8 then [CHR 0x5C, CHR ''b'']
      else if n = 12 then [CHR 0x5C, CHR ''f'']
      else if n = 10 then [CHR 0x5C, CHR ''n'']
      else if n = 13 then [CHR 0x5C, CHR ''r'']
      else if n = 9 then [CHR 0x5C, CHR ''t'']
      else if n < 32 then [CHR 0x5C, CHR ''u'', CHR ''0'', CHR ''0'', hex_digit (n div 16), hex_digit (n mod 16)]
      else [c])"

definition json_quote :: "string \<Rightarrow> string" where
  "json_quote s = [CHR 0x22] @ concat (map json_escape_char s) @ [CHR 0x22]"

fun JSON_stringify :: "json \<Rightarrow> string option" where
  "JSON_stringify JUndefined = None"
| "JSON_stringify JNull = Some ''null''"
| "JSON_stringify (JBool b) = Some (if b then ''true'' else ''false'')"
| "JSON_stringify (JNum n) = Some (showInt n)"
| "JSON_stringify (JStr s) = Some (json_quote s)"
| "JSON_stringify (JArr xs) =
     Some (''['' @ intercalate '',''
             (map (\<lambda>x. case JSON_stringify x of None \<Rightarrow> ''null'' | Some t \<Rightarrow> t) xs) @ '']'')"
| "JSON_stringify (JObj kvs) =
     Some (''{'' @ intercalate '',''
             (concat (map (\<lambda>kv. case JSON_stringify (snd kv) of
                                    None \<Rightarrow> []
                                  | Some t \<Rightarrow> [json_quote (fst kv) @ '':'' @ t]) kvs)) @ ''}'')"

definition stringify_value :: "json \<Rightarrow> json" where
  "stringify_value v = (case JSON_stringify v of None \<Rightarrow> JUndefined | Some t \<Rightarrow> JStr t)"

section \<open>Collaborators of the attribute validators\<close>

text \<open>
  \<open>attribute.js\<close> requires \<open>./helpers\<close> (\<open>ValidatorResult\<close>, \<open>SchemaError\<close>,
  \<open>deepCompareStrict\<close>, \<open>isFormat\<close>) and is called with \<open>this\<close> bound to the validator
  (\<open>validateSchema\<close>, \<open>testType\<close>, \<open>types\<close>). Neither file is part of the sources at hand.
  The functions are parameters of the model (record \<open>env\<close>); the result accumulator and
  the context are modelled from the specification.
\<close>

record ctx =
  propertyPath :: string

record verror =
  message :: string
  property :: json

record vresult =
  vr_errors :: "verror list"
  vr_instance :: json
  vr_schema :: json
  vr_propertyPath :: string

text \<open>What a validator hands back: \<open>null\<close>, \<open>undefined\<close>, a message, or a result object.\<close>

datatype vreturn = RNull | RUndefined | RMsg string | RResult vresult

datatype format_check = FmtTrue | FmtFalse | FmtRegExp string | FmtString string

record env =
  this_validateSchema :: "json \<Rightarrow> json \<Rightarrow> ctx \<Rightarrow> error + vresult"
  this_testType :: "json \<Rightarrow> json \<Rightarrow> ctx \<Rightarrow> json \<Rightarrow> error + bool"
  helpers_deepCompareStrict :: "json \<Rightarrow> json \<Rightarrow> bool"
  helpers_isFormat :: "string \<Rightarrow> json \<Rightarrow> format_check"
  regExpTest :: "json \<Rightarrow> string \<Rightarrow> error + bool"
  stringToNumber :: "string \<Rightarrow> int option"

text \<open>
  \<open>this_validateSchema instance schema ctx\<close> is the orchestrator (the \<open>options\<close> argument,
  which no validator of this file reads, is part of the closure);
  \<open>regExpTest p s\<close> is \<open>new RegExp(p).test(s)\<close>, which throws on a malformed pattern;
  \<open>stringToNumber\<close> is the conversion of a string to a number (\<open>None\<close> for \<open>NaN\<close>).
  The orchestrator is a function of its arguments. What a nested call does to the instance
  it is given shows in the \<open>instance\<close> of the result it returns, which is what the
  validators of this file read and write back.
\<close>

text \<open>Modelled from the spec: the context of helpers.js, whose child extends the
  property path by a key (dot-addressed) or an index (bracket-addressed).\<close>

definition makeChild :: "ctx \<Rightarrow> json \<Rightarrow> json \<Rightarrow> ctx" where
  "makeChild c schema name =
     \<lparr>propertyPath =
        (case name of
           JNum i \<Rightarrow> propertyPath c @ ''['' @ showInt i @ '']''
         | _ \<Rightarrow> (if propertyPath c = [] then js_toString name
                 else propertyPath c @ ''.'' @ js_toString name))\<rparr>"

text \<open>Modelled from the spec: the result accumulator of helpers.js. It is tied to one
  (instance, schema, context) triple and starts with no error.\<close>

definition ValidatorResult :: "json \<Rightarrow> json \<Rightarrow> ctx \<Rightarrow> vresult" where
  "ValidatorResult inst schema c =
     \<lparr>vr_errors = [], vr_instance = inst, vr_schema = schema, vr_propertyPath = propertyPath c\<rparr>"

text \<open>Modelled from the spec: \<open>valid\<close> is derived: true iff the error list is empty.\<close>

definition valid :: "vresult \<Rightarrow> bool" where
  "valid r = (vr_errors r = [])"

text \<open>Modelled from the spec: \<open>addError(message, property)\<close> appends one error record,
  addressed at the given property or, without one, at the result's own path.\<close>

definition addError :: "vresult \<Rightarrow> string \<Rightarrow> json \<Rightarrow> vresult" where
  "addError r msg prop =
     r\<lparr>vr_errors := vr_errors r @
          [\<lparr>message = msg,
            property = (if prop = JUndefined then JStr (vr_propertyPath r) else prop)\<rparr>]\<rparr>"

text \<open>Modelled from the spec: importing appends the errors of a result (not re-wrapped);
  a message becomes one error; \<open>null\<close> and \<open>undefined\<close> add nothing.\<close>

fun importErrors :: "vresult \<Rightarrow> vreturn \<Rightarrow> vresult" where
  "importErrors r RNull = r"
| "importErrors r RUndefined = r"
| "importErrors r (RMsg msg) = addError r msg JUndefined"
| "importErrors r (RResult res) = r\<lparr>vr_errors := vr_errors r @ vr_errors res\<rparr>"

text \<open>Modelled from the spec: \<open>this.types.object\<close> accepts objects that are neither
  \<open>null\<close> nor arrays.\<close>

fun types_object :: "json \<Rightarrow> bool" where
  "types_object (JObj kvs) = True"
| "types_object v = False"

text \<open>The number a value converts to in a comparison or a division.\<close>

fun js_toNumber :: "env \<Rightarrow> json \<Rightarrow> int option" where
  "js_toNumber E JUndefined = None"
| "js_toNumber E JNull = Some 0"
| "js_toNumber E (JBool b) = Some (if b then 1 else 0)"
| "js_toNumber E (JNum n) = Some n"
| "js_toNumber E (JStr s) = stringToNumber E s"
| "js_toNumber E v = stringToNumber E (js_toString v)"

text \<open>\<open>v == 0\<close>: \<open>null\<close> and \<open>undefined\<close> equal only each other, anything else is
  converted to a number.\<close>

fun js_looseEqZero :: "env \<Rightarrow> json \<Rightarrow> bool" where
  "js_looseEqZero E JUndefined = False"
| "js_looseEqZero E JNull = False"
| "js_looseEqZero E v = (js_toNumber E v = Some 0)"

text \<open>\<open>n >= v\<close> and \<open>n <= v\<close> for a number \<open>n\<close>: false when \<open>v\<close> converts to \<open>NaN\<close>.\<close>

definition js_ge :: "env \<Rightarrow> int \<Rightarrow> json \<Rightarrow> bool" where
  "js_ge E n v = (case js_toNumber E v of None \<Rightarrow> False | Some m \<Rightarrow> n \<ge> m)"

definition js_gt :: "env \<Rightarrow> int \<Rightarrow> json \<Rightarrow> bool" where
  "js_gt E n v = (case js_toNumber E v of None \<Rightarrow> False | Some m \<Rightarrow> n > m)"

definition js_le :: "env \<Rightarrow> int \<Rightarrow> json \<Rightarrow> bool" where
  "js_le E n v = (case js_toNumber E v of None \<Rightarrow> False | Some m \<Rightarrow> n \<le> m)"

definition js_lt :: "env \<Rightarrow> int \<Rightarrow> json \<Rightarrow> bool" where
  "js_lt E n v = (case js_toNumber E v of None \<Rightarrow> False | Some m \<Rightarrow> n < m)"


section \<open>Array iteration with exceptions\<close>

text \<open>\<open>Array.prototype.some\<close>, \<open>every\<close>, \<open>map\<close>, \<open>filter\<close> and \<open>forEach\<close> with a callback
  that may throw: the first exception ends the iteration.\<close>

fun someE :: "('a \<Rightarrow> error + bool) \<Rightarrow> 'a list \<Rightarrow> error + bool" where
  "someE f [] = Inr False"
| "someE f (x # xs) =
     (case f x of Inl e \<Rightarrow> Inl e | Inr b \<Rightarrow> if b then Inr True else someE f xs)"

fun everyE :: "('a \<Rightarrow> error + bool) \<Rightarrow> 'a list \<Rightarrow> error + bool" where
  "everyE f [] = Inr True"
| "everyE f (x # xs) =
     (case f x of Inl e \<Rightarrow> Inl e | Inr b \<Rightarrow> if b then everyE f xs else Inr False)"

fun mapE :: "('a \<Rightarrow> error + 'b) \<Rightarrow> 'a list \<Rightarrow> error + 'b list" where
  "mapE f [] = Inr []"
| "mapE f (x # xs) =
     (case f x of
        Inl e \<Rightarrow> Inl e
      | Inr y \<Rightarrow> (case mapE f xs of Inl e \<Rightarrow> Inl e | Inr ys \<Rightarrow> Inr (y # ys)))"

fun filterE :: "('a \<Rightarrow> error + bool) \<Rightarrow> 'a list \<Rightarrow> error + 'a list" where
  "filterE f [] = Inr []"
| "filterE f (x # xs) =
     (case f x of
        Inl e \<Rightarrow> Inl e
      | Inr b \<Rightarrow> (case filterE f xs of
                    Inl e \<Rightarrow> Inl e
                  | Inr ys \<Rightarrow> Inr (if b then x # ys else ys)))"

fun foldE :: "('s \<Rightarrow> 'a \<Rightarrow> error + 's) \<Rightarrow> 's \<Rightarrow> 'a list \<Rightarrow> error + 's" where
  "foldE f s [] = Inr s"
| "foldE f s (x # xs) = (case f s x of Inl e \<Rightarrow> Inl e | Inr s' \<Rightarrow> foldE f s' xs)"

fun elems :: "json \<Rightarrow> json list" where
  "elems (JArr xs) = xs"
| "elems v = []"

section \<open>The attribute validators\<close>

subsection \<open>type\<close>

definition typeName :: "json \<Rightarrow> error + json" where
  "typeName v =
     bindE (js_get v ''id'') (\<lambda>vid.
       Inr (js_or (js_and vid (JStr (''<'' @ js_toString vid @ ''>''))) (JStr (js_toString v))))"

definition validateType :: "env \<Rightarrow> json \<Rightarrow> json \<Rightarrow> ctx \<Rightarrow> error + vreturn" where
  "validateType E inst schema c =
     (if inst = JUndefined then Inr RNull
      else
        bindE (js_get schema ''type'') (\<lambda>t.
          let types = (if isArray t then elems t else [t]) in
          bindE (someE (this_testType E inst schema c) types) (\<lambda>ok.
            if \<not> ok then
              bindE (mapE typeName types) (\<lambda>names.
                Inr (RMsg ((if length types = 1 then ''is not a '' else ''is none of '')
                           @ js_toString (JArr names))))
            else Inr RNull)))"

text \<open>The two bound helpers \<open>testSchema\<close> and \<open>validateSchema\<close> of the file.\<close>

definition testSchema :: "env \<Rightarrow> json \<Rightarrow> ctx \<Rightarrow> json \<Rightarrow> error + bool" where
  "testSchema E inst c schema =
     bindE (this_validateSchema E inst schema c) (\<lambda>r. Inr (valid r))"

definition validateSchema :: "env \<Rightarrow> json \<Rightarrow> ctx \<Rightarrow> json \<Rightarrow> error + vresult" where
  "validateSchema E inst c schema = this_validateSchema E inst schema c"

subsection \<open>Numeric, string and size constraints\<close>

definition validateMinProperties :: "env \<Rightarrow> json \<Rightarrow> json \<Rightarrow> error + vreturn" where
  "validateMinProperties E inst schema =
     (if \<not> js_truthy inst \<or> \<not> typeof_object inst then Inr RNull
      else
        bindE (js_keys inst) (\<lambda>keys.
        bindE (js_get schema ''minProperties'') (\<lambda>m.
          if \<not> js_ge E (int (length keys)) m
          then Inr (RMsg (''does not meet minimum property length of '' @ js_toString m))
          else Inr RNull)))"

definition validateMaxProperties :: "env \<Rightarrow> json \<Rightarrow> json \<Rightarrow> error + vreturn" where
  "validateMaxProperties E inst schema =
     (if \<not> js_truthy inst \<or> \<not> typeof_object inst then Inr RNull
      else
        bindE (js_keys inst) (\<lambda>keys.
        bindE (js_get schema ''maxProperties'') (\<lambda>m.
          if \<not> js_le E (int (length keys)) m
          then Inr (RMsg (''does not meet maximum property length of '' @ js_toString m))
          else Inr RNull)))"

definition validateMinimum :: "env \<Rightarrow> json \<Rightarrow> json \<Rightarrow> error + vreturn" where
  "validateMinimum E inst schema =
     (case inst of
        JNum n \<Rightarrow>
          bindE (js_get schema ''exclusiveMinimum'') (\<lambda>ex.
          bindE (js_get schema ''minimum'') (\<lambda>m.
            let ok = (if js_truthy ex \<and> ex = JBool True then js_gt E n m else js_ge E n m) in
            if \<not> ok then Inr (RMsg (''must have a minimum value of '' @ js_toString m))
            else Inr RNull))
      | _ \<Rightarrow> Inr RNull)"

definition validateMaximum :: "env \<Rightarrow> json \<Rightarrow> json \<Rightarrow> error + vreturn" where
  "validateMaximum E inst schema =
     (case inst of
        JNum n \<Rightarrow>
          bindE (js_get schema ''exclusiveMaximum'') (\<lambda>ex.
          bindE (js_get schema ''maximum'') (\<lambda>m.
            let ok = (if js_truthy ex \<and> ex = JBool True then js_lt E n m else js_le E n m) in
            if \<not> ok then Inr (RMsg (''must have a maximum value of '' @ js_toString m))
            else Inr RNull))
      | _ \<Rightarrow> Inr RNull)"

text \<open>\<open>instance / d % 1\<close> is truthy when the quotient has a fractional part; it is
  \<open>NaN\<close>, hence falsy, when \<open>d\<close> converts to \<open>NaN\<close> or to zero. The arithmetic is exact
  here, where JavaScript rounds.\<close>

definition hasFraction :: "env \<Rightarrow> int \<Rightarrow> json \<Rightarrow> bool" where
  "hasFraction E n d =
     (case js_toNumber E d of
        None \<Rightarrow> False
      | Some m \<Rightarrow> m \<noteq> 0 \<and> \<not> m dvd n)"

definition validateDivisibleBy :: "env \<Rightarrow> json \<Rightarrow> json \<Rightarrow> error + vreturn" where
  "validateDivisibleBy E inst schema =
     (case inst of
        JNum n \<Rightarrow>
          bindE (js_get schema ''divisibleBy'') (\<lambda>d.
            if js_looseEqZero E d then Inl (SchemaError ''divisibleBy cannot be zero'')
            else if hasFraction E n d then Inr (RMsg (''is not '' @ js_toString d))
            else Inr RNull)
      | _ \<Rightarrow> Inr RNull)"

definition validateMultipleOf :: "env \<Rightarrow> json \<Rightarrow> json \<Rightarrow> error + vreturn" where
  "validateMultipleOf E inst schema =
     (case inst of
        JNum n \<Rightarrow>
          bindE (js_get schema ''multipleOf'') (\<lambda>d.
            if js_looseEqZero E d then Inl (SchemaError ''multipleOf cannot be zero'')
            else if hasFraction E n d then Inr (RMsg (''is not '' @ js_toString d))
            else Inr RNull)
      | _ \<Rightarrow> Inr RNull)"

text \<open>The guard shared by \<open>pattern\<close>, \<open>format\<close> and \<open>enum\<close>: the instance is \<open>undefined\<close>,
  \<open>null\<close>, or the empty string of a schema whose \<open>required\<close> is falsy.\<close>

definition absentOrEmpty :: "json \<Rightarrow> json \<Rightarrow> error + bool" where
  "absentOrEmpty inst schema =
     (if inst = JUndefined \<or> inst = JNull then Inr True
      else if inst = JStr [] then bindE (js_get schema ''required'') (\<lambda>r. Inr (\<not> js_truthy r))
      else Inr False)"

definition validatePattern :: "env \<Rightarrow> json \<Rightarrow> json \<Rightarrow> error + vreturn" where
  "validatePattern E inst schema =
     bindE (absentOrEmpty inst schema) (\<lambda>skip.
       if skip then Inr RNull
       else
         bindE (js_get schema ''pattern'') (\<lambda>p.
         bindE (regExpTest E p (js_toString inst)) (\<lambda>m.
           if \<not> m then Inr (RMsg (''does not match pattern '' @ js_toString p))
           else Inr RNull)))"

definition validateFormat :: "env \<Rightarrow> json \<Rightarrow> json \<Rightarrow> error + vreturn" where
  "validateFormat E inst schema =
     bindE (absentOrEmpty inst schema) (\<lambda>skip.
       if skip then Inr RNull
       else
         bindE (js_get schema ''format'') (\<lambda>f.
           let msg = ''does not conform to the '' @ [CHR 0x27] @ js_toString f @ [CHR 0x27] @ '' format'' in
           case helpers_isFormat E (js_toString inst) f of
             FmtTrue \<Rightarrow> Inr RNull
           | FmtRegExp src \<Rightarrow> Inr (RMsg (msg @ '', based on pattern: /'' @ src @ ''/''))
           | FmtString t \<Rightarrow> Inr (RMsg t)
           | FmtFalse \<Rightarrow> Inr (RMsg msg)))"

definition validateMinLength :: "env \<Rightarrow> json \<Rightarrow> json \<Rightarrow> error + vreturn" where
  "validateMinLength E inst schema =
     (if inst = JUndefined \<or> inst = JNull then Inr RNull
      else
        bindE (js_get schema ''minLength'') (\<lambda>m.
          if \<not> js_ge E (int (length (js_toString inst))) m
          then Inr (RMsg (''does not meet minimum length of '' @ js_toString m))
          else Inr RNull))"

definition validateMaxLength :: "env \<Rightarrow> json \<Rightarrow> json \<Rightarrow> error + vreturn" where
  "validateMaxLength E inst schema =
     (if inst = JUndefined \<or> inst = JNull then Inr RNull
      else
        bindE (js_get schema ''maxLength'') (\<lambda>m.
          if \<not> js_le E (int (length (js_toString inst))) m
          then Inr (RMsg (''does not meet maximum length of '' @ js_toString m))
          else Inr RNull))"

definition validateMinItems :: "env \<Rightarrow> json \<Rightarrow> json \<Rightarrow> error + vreturn" where
  "validateMinItems E inst schema =
     (case inst of
        JArr xs \<Rightarrow>
          bindE (js_get schema ''minItems'') (\<lambda>m.
            if \<not> js_ge E (int (length xs)) m
            then Inr (RMsg (''must contain at least '' @ js_toString m))
            else Inr RNull)
      | _ \<Rightarrow> Inr RNull)"

definition validateMaxItems :: "env \<Rightarrow> json \<Rightarrow> json \<Rightarrow> error + vreturn" where
  "validateMaxItems E inst schema =
     (case inst of
        JArr xs \<Rightarrow>
          bindE (js_get schema ''maxItems'') (\<lambda>m.
            if \<not> js_le E (int (length xs)) m
            then Inr (RMsg (''does not meet maximum length of '' @ js_toString m))
            else Inr RNull)
      | _ \<Rightarrow> Inr RNull)"

subsection \<open>enum\<close>

definition validateEnum :: "env \<Rightarrow> json \<Rightarrow> json \<Rightarrow> error + vreturn" where
  "validateEnum E inst schema =
     bindE (js_get schema ''enum'') (\<lambda>en.
       if \<not> isArray en then Inl (SchemaError ''enum expects an array'')
       else
         bindE (absentOrEmpty inst schema) (\<lambda>skip.
           if skip then Inr RNull
           else if \<not> list_ex (helpers_deepCompareStrict E inst) (elems en)
           then Inr (RMsg (''is not one of enum values: '' @ js_toString en))
           else Inr RNull))"


subsection \<open>Detection of mutually exclusive dependencies\<close>

text \<open>
  \<open>removeNot\<close> changes its argument in place and returns whether it found a \<open>not\<close>. On
  values it returns the flag together with the changed value. The hoisting loop reads
  \<open>schema.not\<close> again at every key, after the assignments made so far, as the source does.
\<close>

fun hoistNot :: "string list \<Rightarrow> (string \<times> json) list \<Rightarrow> error + (string \<times> json) list" where
  "hoistNot [] kvs = Inr kvs"
| "hoistNot (propName # ps) kvs =
     (case js_get (JObj kvs) ''not'' of
        Inl e \<Rightarrow> Inl e
      | Inr n \<Rightarrow> (case js_get n propName of
                    Inl e \<Rightarrow> Inl e
                  | Inr v \<Rightarrow> hoistNot ps (alist_set kvs propName v)))"

text \<open>\<open>xs.some(f)\<close> for a callback that changes the element it accepts: the elements
  are visited in order up to the first one for which the callback returns true.\<close>

fun firstE :: "('a \<Rightarrow> error + bool \<times> 'a) \<Rightarrow> 'a list \<Rightarrow> error + bool \<times> 'a list" where
  "firstE f [] = Inr (False, [])"
| "firstE f (x # xs) =
     (case f x of
        Inl e \<Rightarrow> Inl e
      | Inr (b, x') \<Rightarrow>
          if b then Inr (True, x' # xs)
          else (case firstE f xs of
                  Inl e \<Rightarrow> Inl e
                | Inr (b', xs') \<Rightarrow> Inr (b', x # xs')))"

lemma firstE_cong [fundef_cong]:
  "xs = ys \<Longrightarrow> (\<And>x. x \<in> set ys \<Longrightarrow> f x = g x) \<Longrightarrow> firstE f xs = firstE g ys"
proof (induction ys arbitrary: xs)
  case Nil
  then show ?case by simp
next
  case (Cons y ys)
  then show ?case by (simp split: sum.splits prod.splits)
qed

fun removeNot :: "json \<Rightarrow> error + bool \<times> json" where
  "removeNot (JObj kvs) =
     (if List.member (map fst kvs) ''not''
      then bindE (js_get (JObj kvs) ''not'') (\<lambda>n.
           bindE (js_keys n) (\<lambda>ps.
           bindE (hoistNot ps kvs) (\<lambda>kvs'.
             Inr (True, JObj (alist_delete kvs' ''not'')))))
      else (case firstE (\<lambda>kv. case removeNot (snd kv) of
                                 Inl e \<Rightarrow> Inl e
                               | Inr (b, v') \<Rightarrow> Inr (b, (fst kv, v'))) kvs of
              Inl e \<Rightarrow> Inl e
            | Inr (b, kvs') \<Rightarrow> Inr (b, JObj kvs')))"
| "removeNot (JArr xs) =
     (case firstE removeNot xs of
        Inl e \<Rightarrow> Inl e
      | Inr (b, xs') \<Rightarrow> Inr (b, JArr xs'))"
| "removeNot JNull = Inl TypeError"
| "removeNot v = Inr (False, v)"

text \<open>\<open>_.isEqual\<close> of lodash: deep comparison, independent of the key order of objects.\<close>

fun isEqual :: "json \<Rightarrow> json \<Rightarrow> bool" where
  "isEqual (JArr xs) (JArr ys) = (length xs = length ys \<and> list_all2 isEqual xs ys)"
| "isEqual (JObj a) (JObj b) =
     (length a = length b \<and>
      list_all (\<lambda>kv. case map_of b (fst kv) of
                       None \<Rightarrow> False
                     | Some w \<Rightarrow> isEqual (snd kv) w) a)"
| "isEqual x y = (x = y)"

text \<open>\<open>_.cloneDeep\<close> of lodash: on values, the copy is the value.\<close>

definition cloneDeep :: "json \<Rightarrow> json" where
  "cloneDeep v = v"

definition areSubschemasMutuallyExclusive :: "json \<Rightarrow> json \<Rightarrow> string \<Rightarrow> error + bool" where
  "areSubschemasMutuallyExclusive dependency1 dependency2 subschemaName =
     bindE (js_get dependency2 subschemaName) (\<lambda>d2.
       if \<not> js_truthy d2 then Inr False
       else
         bindE (js_get dependency1 subschemaName) (\<lambda>d1.
         bindE (removeNot (cloneDeep d1)) (\<lambda>r1.
         bindE (removeNot (cloneDeep d2)) (\<lambda>r2.
           if \<not> fst r1 \<and> \<not> fst r2 then Inr False
           else if \<not> isEqual (snd r1) (snd r2) then Inr False
           else Inr True))))"

definition hasMutuallyExclusiveDependencies :: "json list \<Rightarrow> error + bool" where
  "hasMutuallyExclusiveDependencies oneOf =
     (if length oneOf \<noteq> 2 then Inr False
      else
        bindE (js_get (oneOf ! 0) ''dependencies'') (\<lambda>dependency1.
          if \<not> js_truthy dependency1 then Inr False
          else
            bindE (js_get (oneOf ! 1) ''dependencies'') (\<lambda>dependency2.
              if \<not> js_truthy dependency2 then Inr False
              else
                bindE (js_keys dependency1) (\<lambda>names.
                  everyE (areSubschemasMutuallyExclusive dependency1 dependency2) names))))"

definition hasNoDependencies :: "json list \<Rightarrow> error + bool" where
  "hasNoDependencies oneOf =
     bindE (someE (\<lambda>subschema.
                     bindE (js_get subschema ''dependencies'') (\<lambda>d. Inr (typeof_object d)))
                  oneOf)
           (\<lambda>b. Inr (\<not> b))"


subsection \<open>anyOf, allOf, oneOf\<close>

fun anyOf_loop :: "vresult list \<Rightarrow> verror list \<Rightarrow> verror list option" where
  "anyOf_loop [] errors = Some errors"
| "anyOf_loop (r # rs) errors =
     (if valid r then None else anyOf_loop rs (errors @ vr_errors r))"

definition validateAnyOf :: "env \<Rightarrow> json \<Rightarrow> json \<Rightarrow> ctx \<Rightarrow> error + vreturn" where
  "validateAnyOf E inst schema c =
     (if inst = JUndefined then Inr RNull
      else
        bindE (js_get schema ''anyOf'') (\<lambda>a.
          if \<not> isArray a then Inl (SchemaError ''anyOf must be an array'')
          else
            bindE (mapE (validateSchema E inst c) (elems a)) (\<lambda>results.
              case anyOf_loop results [] of
                None \<Rightarrow> Inr RNull
              | Some errors \<Rightarrow>
                  Inr (RResult \<lparr>vr_errors = errors, vr_instance = inst, vr_schema = schema,
                                vr_propertyPath = propertyPath c\<rparr>))))"

text \<open>The expression naming a member schema in the messages of \<open>allOf\<close> and \<open>oneOf\<close>:
  its \<open>id\<close> in angle brackets, else its \<open>title\<close> as JSON text, else its \<open>$ref\<close> in angle
  brackets, else the given default.\<close>

definition schemaLabel :: "json \<Rightarrow> string \<Rightarrow> error + string" where
  "schemaLabel v dflt =
     bindE (js_get v ''id'') (\<lambda>vid.
     bindE (js_get v ''title'') (\<lambda>title.
     bindE (js_get v ''$ref'') (\<lambda>ref.
       Inr (js_toString
              (js_or (js_or (js_or (js_and vid (JStr (''<'' @ js_toString vid @ ''>'')))
                                   (js_and title (stringify_value title)))
                            (js_and ref (JStr (''<'' @ js_toString ref @ ''>''))))
                     (JStr dflt))))))"

definition allOf_step :: "env \<Rightarrow> json \<Rightarrow> ctx \<Rightarrow> vresult \<Rightarrow> json \<Rightarrow> error + vresult" where
  "allOf_step E inst c result v =
     bindE (this_validateSchema E inst v c) (\<lambda>res.
       if \<not> valid res then
         bindE (schemaLabel v ''<subschema>'') (\<lambda>msg.
           Inr (importErrors
                  (addError result
                     (''does not match allOf schema '' @ msg @ '' with ''
                        @ showNat (length (vr_errors res)) @ '' error[s]:'') JUndefined)
                  (RResult res)))
       else Inr result)"

definition validateAllOf :: "env \<Rightarrow> json \<Rightarrow> json \<Rightarrow> ctx \<Rightarrow> error + vreturn" where
  "validateAllOf E inst schema c =
     (let result = ValidatorResult inst schema c in
      if inst = JUndefined then Inr RNull
      else
        bindE (js_get schema ''allOf'') (\<lambda>a.
          if \<not> isArray a then Inl (SchemaError ''allOf must be an array'')
          else
            bindE (foldE (allOf_step E inst c) result (elems a)) (\<lambda>r. Inr (RResult r))))"

fun startsWith :: "string \<Rightarrow> string \<Rightarrow> bool" where
  "startsWith s [] = True"
| "startsWith [] (p # ps) = False"
| "startsWith (c # cs) (p # ps) = (c = p \<and> startsWith cs ps)"

text \<open>\<open>s.indexOf(p) > -1\<close>.\<close>

fun js_contains :: "string \<Rightarrow> string \<Rightarrow> bool" where
  "js_contains [] p = (p = [])"
| "js_contains (c # cs) p = (startsWith (c # cs) p \<or> js_contains cs p)"

definition isDependencyError :: "verror \<Rightarrow> bool" where
  "isDependencyError e = js_contains (message e) ''dependency''"

fun genericLabels :: "nat \<Rightarrow> json list \<Rightarrow> error + string list" where
  "genericLabels i [] = Inr []"
| "genericLabels i (v # vs) =
     (case schemaLabel v (''[subschema '' @ showNat i @ '']'') of
        Inl e \<Rightarrow> Inl e
      | Inr l \<Rightarrow> (case genericLabels (Suc i) vs of
                    Inl e \<Rightarrow> Inl e
                  | Inr ls \<Rightarrow> Inr (l # ls)))"

definition genericErrorMessage :: "json list \<Rightarrow> error + string" where
  "genericErrorMessage oneOf =
     bindE (genericLabels 0 oneOf) (\<lambda>ls.
       Inr (''is not exactly one from '' @ intercalate '','' ls))"

text \<open>The loop of the first branch: the state is \<open>validationResult\<close> (\<open>None\<close> for
  \<open>null\<close>) and \<open>validCount\<close>.\<close>

definition exclusive_step ::
  "env \<Rightarrow> json \<Rightarrow> ctx \<Rightarrow> vresult option \<times> nat \<Rightarrow> json \<Rightarrow> error + vresult option \<times> nat" where
  "exclusive_step E inst c st subschema =
     bindE (this_validateSchema E inst subschema c) (\<lambda>result.
       if \<not> valid result then
         (if \<not> list_ex isDependencyError (vr_errors result)
          then Inr (Some result, snd st)
          else Inr st)
       else Inr (fst st, snd st + 1))"

text \<open>The loop of the second branch: the state is \<open>validCount\<close> and \<open>errors\<close>.\<close>

fun count_loop :: "vresult list \<Rightarrow> nat \<times> verror list \<Rightarrow> nat \<times> verror list" where
  "count_loop [] st = st"
| "count_loop (r # rs) st =
     count_loop rs ((if valid r then fst st + 1 else fst st), snd st @ vr_errors r)"

text \<open>The three branches of \<open>validateOneOf\<close>; each yields \<open>validationResult\<close> and
  \<open>validCount\<close>.\<close>

definition exclusivePath :: "env \<Rightarrow> json \<Rightarrow> ctx \<Rightarrow> json list \<Rightarrow> error + vresult option \<times> nat" where
  "exclusivePath E inst c oneOf = foldE (exclusive_step E inst c) (None, 0) oneOf"

definition plainPath :: "env \<Rightarrow> json \<Rightarrow> json \<Rightarrow> ctx \<Rightarrow> json list
    \<Rightarrow> error + vresult option \<times> nat" where
  "plainPath E inst schema c oneOf =
     bindE (mapE (validateSchema E inst c) oneOf) (\<lambda>results.
       let st = count_loop results (0, []) in
       if fst st = 0 then
         Inr (Some \<lparr>vr_errors = snd st, vr_instance = inst, vr_schema = schema,
                    vr_propertyPath = propertyPath c\<rparr>,
              length (snd st))
       else Inr (None, fst st))"

definition countingPath :: "env \<Rightarrow> json \<Rightarrow> ctx \<Rightarrow> json list \<Rightarrow> error + vresult option \<times> nat" where
  "countingPath E inst c oneOf =
     bindE (filterE (testSchema E inst c) oneOf) (\<lambda>passing. Inr (None, length passing))"

definition oneOf_decide :: "env \<Rightarrow> json \<Rightarrow> json \<Rightarrow> ctx \<Rightarrow> json list
    \<Rightarrow> error + vresult option \<times> nat" where
  "oneOf_decide E inst schema c oneOf =
     bindE (hasMutuallyExclusiveDependencies oneOf) (\<lambda>exclusive.
       if exclusive then exclusivePath E inst c oneOf
       else
         bindE (hasNoDependencies oneOf) (\<lambda>plain.
           if plain then plainPath E inst schema c oneOf
           else countingPath E inst c oneOf))"

definition validateOneOf :: "env \<Rightarrow> json \<Rightarrow> json \<Rightarrow> ctx \<Rightarrow> error + vreturn" where
  "validateOneOf E inst schema c =
     (if inst = JUndefined then Inr RNull
      else
        bindE (js_get schema ''oneOf'') (\<lambda>a.
          if \<not> isArray a then Inl (SchemaError ''oneOf must be an array'')
          else
            bindE (genericErrorMessage (elems a)) (\<lambda>generic.
            bindE (oneOf_decide E inst schema c (elems a)) (\<lambda>st.
              if snd st \<noteq> 1 then
                (case fst st of
                   Some validationResult \<Rightarrow> Inr (RResult validationResult)
                 | None \<Rightarrow> Inr (RMsg generic))
              else Inr RNull))))"


subsection \<open>properties, patternProperties, additionalProperties\<close>

text \<open>
  \<open>result.instance\<close> is the instance object itself, so the assignment
  \<open>result.instance[k] = res.instance\<close> changes the instance that later iterations read.
  The model keeps the current instance in the result and reads it from there. The test
  \<open>res.instance !== result.instance[k]\<close> compares values here: storing an equal value
  changes nothing. An array takes assignments to indices only.
\<close>

fun js_set :: "json \<Rightarrow> string \<Rightarrow> json \<Rightarrow> json" where
  "js_set (JObj kvs) k v = JObj (alist_set kvs k v)"
| "js_set (JArr xs) k v =
     (case index_of_key k of
        None \<Rightarrow> JArr xs
      | Some i \<Rightarrow> if i < length xs then JArr (xs[i := v])
                  else JArr (xs @ replicate (i - length xs) JUndefined @ [v]))"
| "js_set x k v = x"

definition writeBack :: "vresult \<Rightarrow> string \<Rightarrow> vresult \<Rightarrow> error + vresult" where
  "writeBack result k res =
     bindE (js_get (vr_instance result) k) (\<lambda>old.
       if vr_instance res \<noteq> old
       then Inr (result\<lparr>vr_instance := js_set (vr_instance result) k (vr_instance res)\<rparr>)
       else Inr result)"

text \<open>\<open>v instanceof Object\<close>: objects and arrays.\<close>

fun instanceof_Object :: "json \<Rightarrow> bool" where
  "instanceof_Object (JObj kvs) = True"
| "instanceof_Object (JArr xs) = True"
| "instanceof_Object v = False"

definition properties_step :: "env \<Rightarrow> ctx \<Rightarrow> json \<Rightarrow> vresult \<Rightarrow> string \<Rightarrow> error + vresult" where
  "properties_step E c properties result prop =
     bindE (js_get (vr_instance result) prop) (\<lambda>v.
     bindE (js_get properties prop) (\<lambda>sub.
     bindE (this_validateSchema E v sub (makeChild c sub (JStr prop))) (\<lambda>res.
     bindE (writeBack result prop res) (\<lambda>result'.
       Inr (importErrors result' (RResult res))))))"

definition validateProperties :: "env \<Rightarrow> json \<Rightarrow> json \<Rightarrow> ctx \<Rightarrow> error + vreturn" where
  "validateProperties E inst schema c =
     (if inst = JUndefined \<or> \<not> instanceof_Object inst then Inr RUndefined
      else
        let result = ValidatorResult inst schema c in
        bindE (js_get schema ''properties'') (\<lambda>p.
          let properties = js_or p (JObj []) in
          bindE (foldE (properties_step E c properties) result (forin_keys properties))
            (\<lambda>r. Inr (RResult r))))"

definition testAdditionalProperty ::
  "env \<Rightarrow> json \<Rightarrow> ctx \<Rightarrow> string \<Rightarrow> vresult \<Rightarrow> error + vresult" where
  "testAdditionalProperty E schema c prop result =
     bindE (js_get schema ''properties'') (\<lambda>sp.
     bindE (if js_truthy sp then bindE (js_get sp prop) (\<lambda>d. Inr (d \<noteq> JUndefined))
            else Inr False) (\<lambda>declared.
       if declared then Inr result
       else
         bindE (js_get schema ''additionalProperties'') (\<lambda>ap.
           if ap = JBool False
           then Inr (addError result ''does not exist in the schema'' (JStr prop))
           else
             let additionalProperties = js_or ap (JObj []) in
             bindE (js_get (vr_instance result) prop) (\<lambda>v.
             bindE (this_validateSchema E v additionalProperties
                      (makeChild c additionalProperties (JStr prop))) (\<lambda>res.
             bindE (writeBack result prop res) (\<lambda>result'.
               Inr (importErrors result' (RResult res))))))))"

text \<open>The inner loop over the patterns: the state is the flag \<open>test\<close> and the result.\<close>

definition pattern_step ::
  "env \<Rightarrow> ctx \<Rightarrow> json \<Rightarrow> string \<Rightarrow> bool \<times> vresult \<Rightarrow> string \<Rightarrow> error + bool \<times> vresult" where
  "pattern_step E c patternProperties prop st pattern =
     bindE (regExpTest E (JStr pattern) prop) (\<lambda>m.
       if \<not> m then Inr st
       else
         bindE (js_get (vr_instance (snd st)) prop) (\<lambda>v.
         bindE (js_get patternProperties pattern) (\<lambda>sub.
         bindE (this_validateSchema E v sub (makeChild c sub (JStr prop))) (\<lambda>res.
         bindE (writeBack (snd st) prop res) (\<lambda>result'.
           Inr (False, importErrors result' (RResult res)))))))"

definition patternProperties_step ::
  "env \<Rightarrow> json \<Rightarrow> ctx \<Rightarrow> json \<Rightarrow> vresult \<Rightarrow> string \<Rightarrow> error + vresult" where
  "patternProperties_step E schema c patternProperties result prop =
     bindE (foldE (pattern_step E c patternProperties prop) (True, result)
              (forin_keys patternProperties)) (\<lambda>st.
       if fst st then testAdditionalProperty E schema c prop (snd st)
       else Inr (snd st))"

definition validatePatternProperties :: "env \<Rightarrow> json \<Rightarrow> json \<Rightarrow> ctx \<Rightarrow> error + vreturn" where
  "validatePatternProperties E inst schema c =
     (if inst = JUndefined then Inr RUndefined
      else if \<not> types_object inst then Inr RUndefined
      else
        let result = ValidatorResult inst schema c in
        bindE (js_get schema ''patternProperties'') (\<lambda>pp.
          let patternProperties = js_or pp (JObj []) in
          bindE (foldE (patternProperties_step E schema c patternProperties) result
                   (forin_keys inst))
            (\<lambda>r. Inr (RResult r))))"

definition validateAdditionalProperties :: "env \<Rightarrow> json \<Rightarrow> json \<Rightarrow> ctx \<Rightarrow> error + vreturn" where
  "validateAdditionalProperties E inst schema c =
     (if inst = JUndefined then Inr RUndefined
      else if \<not> types_object inst then Inr RUndefined
      else
        bindE (js_get schema ''patternProperties'') (\<lambda>pp.
          if js_truthy pp then Inr RNull
          else
            let result = ValidatorResult inst schema c in
            bindE (foldE (\<lambda>r prop. testAdditionalProperty E schema c prop r) result
                     (forin_keys inst))
              (\<lambda>r. Inr (RResult r))))"

subsection \<open>items\<close>

text \<open>\<open>xs.every(f)\<close> for a callback that updates a state: the scan stops at the first
  element for which the callback returns false.\<close>

fun everyS :: "('s \<Rightarrow> 'a \<Rightarrow> error + bool \<times> 's) \<Rightarrow> 's \<Rightarrow> 'a list \<Rightarrow> error + 's" where
  "everyS f s [] = Inr s"
| "everyS f s (x # xs) =
     (case f s x of
        Inl e \<Rightarrow> Inl e
      | Inr (b, s') \<Rightarrow> if b then everyS f s' xs else Inr s')"

definition items_callback ::
  "env \<Rightarrow> json \<Rightarrow> ctx \<Rightarrow> vresult \<Rightarrow> nat \<times> json \<Rightarrow> error + bool \<times> vresult" where
  "items_callback E schema c result iv =
     (let i = fst iv; v = snd iv in
      bindE (js_get schema ''items'') (\<lambda>si.
      bindE (if isArray si
             then bindE (js_get si (showNat i)) (\<lambda>sii.
                  bindE (js_get schema ''additionalItems'') (\<lambda>ai. Inr (js_or sii ai)))
             else Inr si) (\<lambda>items.
        if items = JUndefined then Inr (True, result)
        else if items = JBool False
        then Inr (False, addError result ''additionalItems not permitted'' JUndefined)
        else
          bindE (this_validateSchema E v items (makeChild c items (JNum (int i)))) (\<lambda>res.
          bindE (writeBack result (showNat i) res) (\<lambda>result'.
            Inr (True, importErrors result' (RResult res)))))))"

definition validateItems :: "env \<Rightarrow> json \<Rightarrow> json \<Rightarrow> ctx \<Rightarrow> error + vreturn" where
  "validateItems E inst schema c =
     (case inst of
        JArr xs \<Rightarrow>
          (let result = ValidatorResult inst schema c in
           bindE (js_get schema ''items'') (\<lambda>si.
             if \<not> js_truthy si then Inr (RResult result)
             else
               bindE (everyS (items_callback E schema c) result (zip [0..<length xs] xs))
                 (\<lambda>r. Inr (RResult r))))
      | _ \<Rightarrow> Inr RNull)"

subsection \<open>required\<close>

definition required_step :: "json \<Rightarrow> ctx \<Rightarrow> vresult \<Rightarrow> json \<Rightarrow> error + vresult" where
  "required_step inst c result n =
     bindE (js_get inst (js_toString n)) (\<lambda>v.
       if v = JUndefined \<or> v = JNull then
         (let contextPropertyPath = (if propertyPath c \<noteq> [] then propertyPath c @ ''.'' else [])
          in Inr (addError result ''is required'' (JStr (contextPropertyPath @ js_toString n))))
       else Inr result)"

definition validateRequired :: "env \<Rightarrow> json \<Rightarrow> json \<Rightarrow> ctx \<Rightarrow> error + vreturn" where
  "validateRequired E inst schema c =
     bindE (js_get schema ''required'') (\<lambda>req.
       if req = JBool True \<and> (inst = JUndefined \<or> inst = JNull) then Inr (RMsg ''is required'')
       else if js_truthy inst \<and> typeof_object inst \<and> isArray req then
         bindE (foldE (required_step inst c) (ValidatorResult inst schema c) (elems req))
           (\<lambda>r. Inr (RResult r))
       else Inr RNull)"


subsection \<open>uniqueItems\<close>

text \<open>The file assigns \<open>validators.uniqueItems\<close> twice. The first function carries its
  own \<open>testArrays\<close>; the second one, which replaces it, uses the \<open>testArrays\<close> of the
  module. Both loops run \<open>j\<close> from \<open>i + 1\<close> up to the length of the array.\<close>

function testArrays_inner_loop :: "env \<Rightarrow> json \<Rightarrow> json list \<Rightarrow> nat \<Rightarrow> bool" where
  "testArrays_inner_loop E v a j =
     (if j < length a
      then (if helpers_deepCompareStrict E v (a ! j) then False
            else testArrays_inner_loop E v a (j + 1))
      else True)"
  by pat_completeness auto
termination
  by (relation "measure (\<lambda>(E, v, a, j). length a - j)") auto

declare testArrays_inner_loop.simps [simp del]

definition testArrays_inner :: "env \<Rightarrow> json \<Rightarrow> nat \<Rightarrow> json list \<Rightarrow> bool" where
  "testArrays_inner E v i a = testArrays_inner_loop E v a (i + 1)"

definition validateUniqueItems_first :: "env \<Rightarrow> json \<Rightarrow> json \<Rightarrow> ctx \<Rightarrow> error + vreturn" where
  "validateUniqueItems_first E inst schema c =
     (let result = ValidatorResult inst schema c in
      case inst of
        JArr xs \<Rightarrow>
          if \<not> list_all (\<lambda>iv. testArrays_inner E (snd iv) (fst iv) xs) (zip [0..<length xs] xs)
          then Inr (RResult (addError result ''contains duplicate item'' JUndefined))
          else Inr (RResult result)
      | _ \<Rightarrow> Inr (RResult result))"

function testArrays_loop :: "env \<Rightarrow> json \<Rightarrow> json list \<Rightarrow> nat \<Rightarrow> nat \<Rightarrow> bool" where
  "testArrays_loop E v a len j =
     (if j < len
      then (if helpers_deepCompareStrict E v (if j < length a then a ! j else JUndefined) then False
            else testArrays_loop E v a len (j + 1))
      else True)"
  by pat_completeness auto
termination
  by (relation "measure (\<lambda>(E, v, a, len, j). len - j)") auto

declare testArrays_loop.simps [simp del]

definition testArrays :: "env \<Rightarrow> json \<Rightarrow> nat \<Rightarrow> json list \<Rightarrow> bool" where
  "testArrays E v i a = (let len = length a in testArrays_loop E v a len (i + 1))"

definition validateUniqueItems :: "env \<Rightarrow> json \<Rightarrow> error + vreturn" where
  "validateUniqueItems E inst =
     (case inst of
        JArr xs \<Rightarrow>
          if \<not> list_all (\<lambda>iv. testArrays E (snd iv) (fst iv) xs) (zip [0..<length xs] xs)
          then Inr (RMsg ''contains duplicate item'')
          else Inr RNull
      | _ \<Rightarrow> Inr RNull)"

subsection \<open>dependencies\<close>

definition dependencies_step ::
  "env \<Rightarrow> json \<Rightarrow> ctx \<Rightarrow> json \<Rightarrow> vresult \<Rightarrow> string \<Rightarrow> error + vresult" where
  "dependencies_step E inst c dependencies result prop =
     bindE (js_get inst prop) (\<lambda>pv.
       if pv = JUndefined then Inr result
       else
         bindE (js_get dependencies prop) (\<lambda>dep0.
           let childContext = makeChild c dep0 (JStr prop);
               dep = (case dep0 of JStr t \<Rightarrow> JArr [dep0] | _ \<Rightarrow> dep0)
           in
           if isArray dep then
             foldE (\<lambda>r p.
                      bindE (js_get inst (js_toString p)) (\<lambda>v.
                        if v = JUndefined
                        then Inr (addError r (''property '' @ js_toString p
                                     @ '' not found, required by '' @ propertyPath childContext)
                                   JUndefined)
                        else Inr r))
                   result (elems dep)
           else
             bindE (this_validateSchema E inst dep childContext) (\<lambda>res.
               let result' = (if vr_instance result \<noteq> vr_instance res
                              then result\<lparr>vr_instance := vr_instance res\<rparr> else result)
               in
               if vr_errors res \<noteq> [] then
                 Inr (importErrors
                        (addError result'
                           (''does not meet dependency required by '' @ propertyPath childContext)
                           JUndefined)
                        (RResult res))
               else Inr result')))"

definition validateDependencies :: "env \<Rightarrow> json \<Rightarrow> json \<Rightarrow> ctx \<Rightarrow> error + vreturn" where
  "validateDependencies E inst schema c =
     (let result = ValidatorResult inst schema c in
      if \<not> js_truthy inst \<or> \<not> typeof_object inst then Inr RNull
      else
        bindE (js_get schema ''dependencies'') (\<lambda>deps.
          bindE (foldE (dependencies_step E inst c deps) result (forin_keys deps))
            (\<lambda>r. Inr (RResult r))))"

subsection \<open>not, disallow\<close>

definition not_step :: "env \<Rightarrow> json \<Rightarrow> json \<Rightarrow> ctx \<Rightarrow> vresult \<Rightarrow> json \<Rightarrow> error + vresult" where
  "not_step E inst schema c result type =
     bindE (this_testType E inst schema c type) (\<lambda>hit.
       if hit then
         bindE (js_get type ''required'') (\<lambda>req.
           if js_truthy req \<and> isArray req then
             Inr (fold (\<lambda>requiredProp r.
                          addError r ''can not be present''
                            (if propertyPath c \<noteq> []
                             then JStr (propertyPath c @ ''.'' @ js_toString requiredProp)
                             else requiredProp))
                       (elems req) result)
           else
             bindE (if js_truthy type
                    then bindE (js_get type ''id'') (\<lambda>tid.
                           Inr (js_and tid (JStr (''<'' @ js_toString tid @ ''>''))))
                    else Inr type) (\<lambda>x.
               let schemaId = js_or x type in
               Inr (addError result (''is of prohibited type '' @ js_toString schemaId) JUndefined)))
       else Inr result)"

definition validateNot :: "env \<Rightarrow> json \<Rightarrow> json \<Rightarrow> ctx \<Rightarrow> error + vreturn" where
  "validateNot E inst schema c =
     (if inst = JUndefined then Inr RNull
      else
        let result = ValidatorResult inst schema c in
        bindE (js_get schema ''not'') (\<lambda>n.
        bindE (js_get schema ''disallow'') (\<lambda>d.
          let notTypes = js_or n d in
          if \<not> js_truthy notTypes then Inr RNull
          else
            let ts = (if isArray notTypes then elems notTypes else [notTypes]) in
            bindE (foldE (not_step E inst schema c) result ts) (\<lambda>r. Inr (RResult r)))))"


section \<open>The table of validators and a closed validator\<close>

text \<open>\<open>attribute.validators\<close>: the function registered for a keyword. \<open>uniqueItems\<close> is
  bound to the second of its two definitions, \<open>not\<close> and \<open>disallow\<close> share one function.\<close>

definition validators :: "string \<Rightarrow> (env \<Rightarrow> json \<Rightarrow> json \<Rightarrow> ctx \<Rightarrow> error + vreturn) option" where
  "validators key =
     (if key = ''type'' then Some validateType
      else if key = ''anyOf'' then Some validateAnyOf
      else if key = ''allOf'' then Some validateAllOf
      else if key = ''oneOf'' then Some validateOneOf
      else if key = ''properties'' then Some validateProperties
      else if key = ''patternProperties'' then Some validatePatternProperties
      else if key = ''additionalProperties'' then Some validateAdditionalProperties
      else if key = ''minProperties'' then Some (\<lambda>E i s c. validateMinProperties E i s)
      else if key = ''maxProperties'' then Some (\<lambda>E i s c. validateMaxProperties E i s)
      else if key = ''items'' then Some validateItems
      else if key = ''minimum'' then Some (\<lambda>E i s c. validateMinimum E i s)
      else if key = ''maximum'' then Some (\<lambda>E i s c. validateMaximum E i s)
      else if key = ''divisibleBy'' then Some (\<lambda>E i s c. validateDivisibleBy E i s)
      else if key = ''multipleOf'' then Some (\<lambda>E i s c. validateMultipleOf E i s)
      else if key = ''required'' then Some validateRequired
      else if key = ''pattern'' then Some (\<lambda>E i s c. validatePattern E i s)
      else if key = ''format'' then Some (\<lambda>E i s c. validateFormat E i s)
      else if key = ''minLength'' then Some (\<lambda>E i s c. validateMinLength E i s)
      else if key = ''maxLength'' then Some (\<lambda>E i s c. validateMaxLength E i s)
      else if key = ''minItems'' then Some (\<lambda>E i s c. validateMinItems E i s)
      else if key = ''maxItems'' then Some (\<lambda>E i s c. validateMaxItems E i s)
      else if key = ''uniqueItems'' then Some (\<lambda>E i s c. validateUniqueItems E i)
      else if key = ''dependencies'' then Some validateDependencies
      else if key = ''enum'' then Some (\<lambda>E i s c. validateEnum E i s)
      else if key = ''not'' then Some validateNot
      else if key = ''disallow'' then Some validateNot
      else None)"

definition ignoreProperties :: "string list" where
  "ignoreProperties =
     [''id'', ''default'', ''description'', ''title'',
      ''exclusiveMinimum'', ''exclusiveMaximum'', ''additionalItems'',
      ''$schema'', ''$ref'', ''extends'']"

text \<open>Modelled from the spec: the orchestrator of validator.js. It runs the validator of
  every recognised keyword of the schema, in the order of the keys, and merges what they
  return into one result. Resolution of \<open>$ref\<close> and \<open>extends\<close>, the write-back of
  \<open>default\<close> values and the rejection of unknown keywords are left out.\<close>

definition orchestrate :: "env \<Rightarrow> json \<Rightarrow> json \<Rightarrow> ctx \<Rightarrow> error + vresult" where
  "orchestrate E inst schema c =
     foldE (\<lambda>result key.
              if List.member ignoreProperties key then Inr result
              else (case validators key of
                      None \<Rightarrow> Inr result
                    | Some validator \<Rightarrow>
                        bindE (validator E inst schema c) (\<lambda>r. Inr (importErrors result r))))
           (ValidatorResult inst schema c) (forin_keys schema)"

text \<open>Modelled from the spec: the type registry of validator.js. A type given as a schema
  is tested by validating against it; a name outside the registry accepts.\<close>

definition testType :: "env \<Rightarrow> json \<Rightarrow> json \<Rightarrow> ctx \<Rightarrow> json \<Rightarrow> error + bool" where
  "testType E inst schema c type =
     (case type of
        JStr t \<Rightarrow>
          Inr (if t = ''string'' then (case inst of JStr x \<Rightarrow> True | _ \<Rightarrow> False)
               else if t = ''number'' \<or> t = ''integer'' then isNumber inst
               else if t = ''boolean'' then (case inst of JBool b \<Rightarrow> True | _ \<Rightarrow> False)
               else if t = ''array'' then isArray inst
               else if t = ''object'' then types_object inst
               else if t = ''null'' then inst = JNull
               else if t = ''date'' then False
               else if t = ''any'' then inst \<noteq> JUndefined
               else True)
      | JObj kvs \<Rightarrow> bindE (this_validateSchema E inst type c) (\<lambda>r. Inr (valid r))
      | _ \<Rightarrow> Inr True)"

text \<open>Modelled from the spec: \<open>deepCompareStrict\<close> of helpers.js, strict structural equality
  with a key comparison that does not depend on the order.\<close>

fun deepCompareStrict :: "json \<Rightarrow> json \<Rightarrow> bool" where
  "deepCompareStrict (JArr xs) (JArr ys) =
     (length xs = length ys \<and> list_all2 deepCompareStrict xs ys)"
| "deepCompareStrict (JObj a) (JObj b) =
     (length a = length b \<and>
      list_all (\<lambda>kv. case map_of b (fst kv) of
                       None \<Rightarrow> False
                     | Some w \<Rightarrow> deepCompareStrict (snd kv) w) a)"
| "deepCompareStrict x y = (x = y)"

text \<open>A regular expression without special characters matches the strings that contain
  it; the closed validator knows no other pattern.\<close>

definition is_plain_char :: "char \<Rightarrow> bool" where
  "is_plain_char ch =
     (let n = (of_char ch :: nat) in
      (48 \<le> n \<and> n \<le> 57) \<or> (65 \<le> n \<and> n \<le> 90) \<or> (97 \<le> n \<and> n \<le> 122))"

definition plainRegExpTest :: "json \<Rightarrow> string \<Rightarrow> error + bool" where
  "plainRegExpTest p t =
     (let src = js_toString p in
      if list_all is_plain_char src then Inr (js_contains t src) else Inl SyntaxError)"

text \<open>Decimal integer literals, the only numeric strings the closed validator converts.\<close>

definition decimalToNumber :: "string \<Rightarrow> int option" where
  "decimalToNumber t =
     (if t = [] then Some 0
      else if list_all is_digit t then Some (int (readNat t))
      else if hd t = CHR ''-'' \<and> tl t \<noteq> [] \<and> list_all is_digit (tl t)
      then Some (- int (readNat (tl t)))
      else None)"

text \<open>The closed validator: every call of the orchestrator goes one level down the
  stack, whose depth is bounded; exhausting it is JavaScript's RangeError.\<close>

fun validatorEnv :: "nat \<Rightarrow> env" where
  "validatorEnv 0 =
     \<lparr>this_validateSchema = (\<lambda>inst schema c. Inl RangeError),
      this_testType = (\<lambda>inst schema c type. Inl RangeError),
      helpers_deepCompareStrict = deepCompareStrict,
      helpers_isFormat = (\<lambda>t f. FmtTrue),
      regExpTest = plainRegExpTest,
      stringToNumber = decimalToNumber\<rparr>"
| "validatorEnv (Suc n) =
     \<lparr>this_validateSchema = orchestrate (validatorEnv n),
      this_testType = testType (validatorEnv n),
      helpers_deepCompareStrict = deepCompareStrict,
      helpers_isFormat = (\<lambda>t f. FmtTrue),
      regExpTest = plainRegExpTest,
      stringToNumber = decimalToNumber\<rparr>"

section \<open>What a return value adds to the result\<close>

text \<open>The errors that importing a return value appends to an accumulator whose path
  is \<open>p\<close>; an exception is passed on.\<close>

fun returnErrors :: "string \<Rightarrow> vreturn \<Rightarrow> verror list" where
  "returnErrors p RNull = []"
| "returnErrors p RUndefined = []"
| "returnErrors p (RMsg msg) = [\<lparr>message = msg, property = JStr p\<rparr>]"
| "returnErrors p (RResult res) = vr_errors res"

definition contributed :: "string \<Rightarrow> error + vreturn \<Rightarrow> error + verror list" where
  "contributed p x = (case x of Inl e \<Rightarrow> Inl e | Inr r \<Rightarrow> Inr (returnErrors p r))"


section \<open>Notions of the specification\<close>

text \<open>An array has a duplicate when two of its elements, at distinct indices, are equal
  for \<open>deepCompareStrict\<close>; the earlier element is the first argument.\<close>

definition hasDuplicate :: "env \<Rightarrow> json \<Rightarrow> bool" where
  "hasDuplicate E inst =
     (case inst of
        JArr xs \<Rightarrow>
          list_ex (\<lambda>j. list_ex (\<lambda>i. helpers_deepCompareStrict E (xs ! i) (xs ! j)) [0..<j])
                  [0..<length xs]
      | _ \<Rightarrow> False)"

text \<open>A property of a value that is neither \<open>null\<close> nor \<open>undefined\<close>.\<close>

definition js_prop :: "json \<Rightarrow> string \<Rightarrow> json" where
  "js_prop v k = (case js_get v k of Inl e \<Rightarrow> JUndefined | Inr x \<Rightarrow> x)"

text \<open>The name of a member schema in a message: its \<open>id\<close> in angle brackets, else its
  \<open>title\<close> as JSON text, else its \<open>$ref\<close> in angle brackets, else a default. A property
  counts when its value is truthy.\<close>

definition memberLabel :: "json \<Rightarrow> string \<Rightarrow> string" where
  "memberLabel m dflt =
     (if js_truthy (js_prop m ''id'') then ''<'' @ js_toString (js_prop m ''id'') @ ''>''
      else if js_truthy (js_prop m ''title'') then js_toString (stringify_value (js_prop m ''title''))
      else if js_truthy (js_prop m ''$ref'') then ''<'' @ js_toString (js_prop m ''$ref'') @ ''>''
      else dflt)"

text \<open>What a member of \<open>allOf\<close> with result \<open>r\<close> contributes: nothing when it validates,
  else one wrapping error followed by the member's own errors.\<close>

definition allOfMemberErrors :: "ctx \<Rightarrow> json \<Rightarrow> vresult \<Rightarrow> verror list" where
  "allOfMemberErrors c m r =
     (if vr_errors r = [] then []
      else \<lparr>message = ''does not match allOf schema '' @ memberLabel m ''<subschema>''
                @ '' with '' @ showNat (length (vr_errors r)) @ '' error[s]:'',
            property = JStr (propertyPath c)\<rparr> # vr_errors r)"

text \<open>The patterns of \<open>patternProperties\<close> that match a key, in the order of the schema.\<close>

definition matchingPatterns :: "env \<Rightarrow> json \<Rightarrow> string \<Rightarrow> string list" where
  "matchingPatterns E patternProperties k =
     filter (\<lambda>pattern. regExpTest E (JStr pattern) k = Inr True) (forin_keys patternProperties)"

text \<open>The value of a key validated against the sub-schemas of the given patterns, one
  after the other, every result being written back and imported.\<close>

fun validateMatching ::
  "env \<Rightarrow> ctx \<Rightarrow> json \<Rightarrow> string \<Rightarrow> vresult \<Rightarrow> string list \<Rightarrow> error + vresult" where
  "validateMatching E c patternProperties k result [] = Inr result"
| "validateMatching E c patternProperties k result (pattern # ps) =
     (case js_get (vr_instance result) k of
        Inl e \<Rightarrow> Inl e
      | Inr v \<Rightarrow>
          (case js_get patternProperties pattern of
             Inl e \<Rightarrow> Inl e
           | Inr sub \<Rightarrow>
               (case this_validateSchema E v sub (makeChild c sub (JStr k)) of
                  Inl e \<Rightarrow> Inl e
                | Inr res \<Rightarrow>
                    (case writeBack result k res of
                       Inl e \<Rightarrow> Inl e
                     | Inr result' \<Rightarrow>
                         validateMatching E c patternProperties k
                           (importErrors result' (RResult res)) ps))))"

text \<open>A key is handled by the patterns that match it, and by the check of additional
  properties when no pattern matches.\<close>

definition patternOrAdditional ::
  "env \<Rightarrow> json \<Rightarrow> ctx \<Rightarrow> json \<Rightarrow> vresult \<Rightarrow> string \<Rightarrow> error + vresult" where
  "patternOrAdditional E schema c patternProperties result k =
     (if matchingPatterns E patternProperties k = []
      then testAdditionalProperty E schema c k result
      else validateMatching E c patternProperties k result (matchingPatterns E patternProperties k))"


text \<open>The list with the first of its elements that satisfies \<open>P\<close> replaced by its image.\<close>

fun changeFirst :: "('a \<Rightarrow> bool) \<Rightarrow> ('a \<Rightarrow> 'a) \<Rightarrow> 'a list \<Rightarrow> 'a list" where
  "changeFirst P f [] = []"
| "changeFirst P f (x # xs) = (if P x then f x # xs else x # changeFirst P f xs)"

lemma changeFirst_cong [fundef_cong]:
  "xs = ys \<Longrightarrow> (\<And>x. x \<in> set ys \<Longrightarrow> f x = g x) \<Longrightarrow> changeFirst P f xs = changeFirst P g ys"
proof (induction ys arbitrary: xs)
  case Nil
  then show ?case by simp
next
  case (Cons y ys)
  then show ?case by simp
qed









text \<open>Structural identity. A value is read as a tree whose objects are finite maps from
  keys to trees, so that the order of the keys of an object does not count; two values
  are structurally identical when their trees are equal. The keys of an object are
  distinct.\<close>

datatype tree =
    TUndefined
  | TNull
  | TBool bool
  | TNum int
  | TStr string
  | TArr "tree list"
  | TObj "string \<Rightarrow> tree option"



text \<open>A failing branch is recorded as the result to report when none of its errors is a
  dependency error.\<close>

definition recorded :: "vresult \<Rightarrow> bool" where
  "recorded r = (vr_errors r \<noteq> [] \<and> \<not> list_ex isDependencyError (vr_errors r))"

text \<open>What the first branch of \<open>validateOneOf\<close> returns for two branches with results
  \<open>r1\<close> and \<open>r2\<close>: nothing when exactly one of them is valid, else the result of the last
  recorded branch, else the generic message.\<close>

definition exclusiveOutcome :: "string \<Rightarrow> vresult \<Rightarrow> vresult \<Rightarrow> vreturn" where
  "exclusiveOutcome generic r1 r2 =
     (if valid r1 \<noteq> valid r2 then RNull
      else if recorded r2 then RResult r2
      else if recorded r1 then RResult r1
      else RMsg generic)"

text \<open>The messages of a result of the orchestrator.\<close>

definition resultMessages :: "error + vresult \<Rightarrow> error + string list" where
  "resultMessages x = (case x of Inl e \<Rightarrow> Inl e | Inr r \<Rightarrow> Inr (map message (vr_errors r)))"


section \<open>The detection on a store\<close>

text \<open>
  \<open>removeNot\<close> assigns to and deletes properties of the object it is given. To see which
  objects the detection changes, objects live in a store: a value is a scalar or a
  reference to an object or an array of the store, \<open>_.cloneDeep\<close> allocates the copies at
  fresh addresses, and \<open>removeNot\<close> updates the store at the address of its argument.
  Every function returns the store it leaves behind, also when it throws. Recursion over
  the store is bounded by the depth of the stack, as in the closed validator.
\<close>

datatype hval = HUndefined | HNull | HBool bool | HNum int | HStr string | HRef nat

datatype hobj = HObject "(string \<times> hval) list" | HArray "hval list"

type_synonym store = "hobj list"

fun h_truthy :: "hval \<Rightarrow> bool" where
  "h_truthy HUndefined = False"
| "h_truthy HNull = False"
| "h_truthy (HBool b) = b"
| "h_truthy (HNum n) = (n \<noteq> 0)"
| "h_truthy (HStr s) = (s \<noteq> [])"
| "h_truthy (HRef a) = True"

text \<open>\<open>base[key]\<close> in a store. A reference outside the store does not occur in a
  well-formed store; reading through it throws.\<close>

definition h_get :: "store \<Rightarrow> hval \<Rightarrow> string \<Rightarrow> error + hval" where
  "h_get h v k =
     (case v of
        HUndefined \<Rightarrow> Inl TypeError
      | HNull \<Rightarrow> Inl TypeError
      | HRef a \<Rightarrow>
          (if a < length h then
             (case h ! a of
                HObject kvs \<Rightarrow> Inr (case map_of kvs k of None \<Rightarrow> HUndefined | Some x \<Rightarrow> x)
              | HArray xs \<Rightarrow>
                  Inr (if k = ''length'' then HNum (int (length xs))
                       else case index_of_key k of
                              None \<Rightarrow> HUndefined
                            | Some i \<Rightarrow> if i < length xs then xs ! i else HUndefined))
           else Inl TypeError)
      | HStr s \<Rightarrow>
          Inr (if k = ''length'' then HNum (int (length s))
               else case index_of_key k of
                      None \<Rightarrow> HUndefined
                    | Some i \<Rightarrow> if i < length s then HStr [s ! i] else HUndefined)
      | _ \<Rightarrow> Inr HUndefined)"

definition h_keys :: "store \<Rightarrow> hval \<Rightarrow> error + string list" where
  "h_keys h v =
     (case v of
        HUndefined \<Rightarrow> Inl TypeError
      | HNull \<Rightarrow> Inl TypeError
      | HRef a \<Rightarrow>
          (if a < length h then
             (case h ! a of
                HObject kvs \<Rightarrow> Inr (map fst kvs)
              | HArray xs \<Rightarrow> Inr (map showNat [0..<length xs]))
           else Inl TypeError)
      | HStr s \<Rightarrow> Inr (map showNat [0..<length s])
      | _ \<Rightarrow> Inr [])"

fun h_alist_set :: "(string \<times> hval) list \<Rightarrow> string \<Rightarrow> hval \<Rightarrow> (string \<times> hval) list" where
  "h_alist_set [] k v = [(k, v)]"
| "h_alist_set ((k', v') # kvs) k v =
     (if k' = k then (k, v) # kvs else (k', v') # h_alist_set kvs k v)"

text \<open>\<open>obj[key] = v\<close> and \<open>delete obj[key]\<close> for the object at an address.\<close>

definition h_set :: "store \<Rightarrow> nat \<Rightarrow> string \<Rightarrow> hval \<Rightarrow> store" where
  "h_set h a k v =
     (if a < length h then
        (case h ! a of
           HObject kvs \<Rightarrow> h[a := HObject (h_alist_set kvs k v)]
         | HArray xs \<Rightarrow> h)
      else h)"

definition h_delete :: "store \<Rightarrow> nat \<Rightarrow> string \<Rightarrow> store" where
  "h_delete h a k =
     (if a < length h then
        (case h ! a of
           HObject kvs \<Rightarrow> h[a := HObject (filter (\<lambda>kv. fst kv \<noteq> k) kvs)]
         | HArray xs \<Rightarrow> h)
      else h)"

text \<open>\<open>a.hasOwnProperty(k)\<close> for the object at an address.\<close>

definition h_hasOwn :: "store \<Rightarrow> nat \<Rightarrow> string \<Rightarrow> bool" where
  "h_hasOwn h a k =
     (a < length h \<and> (case h ! a of HObject kvs \<Rightarrow> List.member (map fst kvs) k | HArray xs \<Rightarrow> False))"

subsection \<open>cloneDeep\<close>

text \<open>The copy of a list of values, one after the other.\<close>

fun cloneList_h ::
  "(store \<Rightarrow> hval \<Rightarrow> (error + hval) \<times> store) \<Rightarrow> hval list \<Rightarrow> store
     \<Rightarrow> (error + hval list) \<times> store" where
  "cloneList_h f [] h = (Inr [], h)"
| "cloneList_h f (v # vs) h =
     (case f h v of
        (Inl e, h1) \<Rightarrow> (Inl e, h1)
      | (Inr v', h1) \<Rightarrow>
          (case cloneList_h f vs h1 of
             (Inl e, h2) \<Rightarrow> (Inl e, h2)
           | (Inr vs', h2) \<Rightarrow> (Inr (v' # vs'), h2)))"

text \<open>\<open>_.cloneDeep\<close>: a scalar is its own copy; the copy of an object or an array is a new
  object of the store whose members are the copies of the members.\<close>

fun cloneDeep_h :: "nat \<Rightarrow> store \<Rightarrow> hval \<Rightarrow> (error + hval) \<times> store" where
  "cloneDeep_h 0 h (HRef a) = (Inl RangeError, h)"
| "cloneDeep_h (Suc n) h (HRef a) =
     (if a < length h then
        (case h ! a of
           HObject kvs \<Rightarrow>
             (case cloneList_h (\<lambda>h' v'. cloneDeep_h n h' v') (map snd kvs) h of
                (Inl e, h1) \<Rightarrow> (Inl e, h1)
              | (Inr vs, h1) \<Rightarrow> (Inr (HRef (length h1)), h1 @ [HObject (zip (map fst kvs) vs)]))
         | HArray xs \<Rightarrow>
             (case cloneList_h (\<lambda>h' v'. cloneDeep_h n h' v') xs h of
                (Inl e, h1) \<Rightarrow> (Inl e, h1)
              | (Inr vs, h1) \<Rightarrow> (Inr (HRef (length h1)), h1 @ [HArray vs])))
      else (Inl TypeError, h))"
| "cloneDeep_h n h v = (Inr v, h)"

subsection \<open>removeNot\<close>

fun hoist_h :: "string list \<Rightarrow> nat \<Rightarrow> store \<Rightarrow> (error + unit) \<times> store" where
  "hoist_h [] a h = (Inr (), h)"
| "hoist_h (propName # ps) a h =
     (case h_get h (HRef a) ''not'' of
        Inl e \<Rightarrow> (Inl e, h)
      | Inr nv \<Rightarrow>
          (case h_get h nv propName of
             Inl e \<Rightarrow> (Inl e, h)
           | Inr v \<Rightarrow> hoist_h ps a (h_set h a propName v)))"

text \<open>\<open>Object.keys(schema).some(...)\<close> for the object at address \<open>a\<close>: the keys are
  fixed when the scan starts, each member is read when its turn comes.\<close>

fun someKeys_h ::
  "(store \<Rightarrow> hval \<Rightarrow> (error + bool) \<times> store) \<Rightarrow> nat \<Rightarrow> string list \<Rightarrow> store
     \<Rightarrow> (error + bool) \<times> store" where
  "someKeys_h f a [] h = (Inr False, h)"
| "someKeys_h f a (k # ks) h =
     (case h_get h (HRef a) k of
        Inl e \<Rightarrow> (Inl e, h)
      | Inr child \<Rightarrow>
          (case f h child of
             (Inl e, h1) \<Rightarrow> (Inl e, h1)
           | (Inr b, h1) \<Rightarrow> if b then (Inr True, h1) else someKeys_h f a ks h1))"

fun removeNot_h :: "nat \<Rightarrow> store \<Rightarrow> hval \<Rightarrow> (error + bool) \<times> store" where
  "removeNot_h n h HNull = (Inl TypeError, h)"
| "removeNot_h 0 h (HRef a) = (Inl RangeError, h)"
| "removeNot_h (Suc n) h (HRef a) =
     (if h_hasOwn h a ''not'' then
        (case h_get h (HRef a) ''not'' of
           Inl e \<Rightarrow> (Inl e, h)
         | Inr nv \<Rightarrow>
             (case h_keys h nv of
                Inl e \<Rightarrow> (Inl e, h)
              | Inr ps \<Rightarrow>
                  (case hoist_h ps a h of
                     (Inl e, h1) \<Rightarrow> (Inl e, h1)
                   | (Inr u, h1) \<Rightarrow> (Inr True, h_delete h1 a ''not''))))
      else
        (case h_keys h (HRef a) of
           Inl e \<Rightarrow> (Inl e, h)
         | Inr ks \<Rightarrow> someKeys_h (\<lambda>h' v'. removeNot_h n h' v') a ks h))"
| "removeNot_h n h v = (Inr False, h)"

subsection \<open>isEqual and the detection\<close>

fun isEqual_h :: "nat \<Rightarrow> store \<Rightarrow> hval \<Rightarrow> hval \<Rightarrow> error + bool" where
  "isEqual_h 0 h (HRef a) (HRef b) = Inl RangeError"
| "isEqual_h (Suc n) h (HRef a) (HRef b) =
     (if a = b then Inr True
      else if a < length h \<and> b < length h then
        (case (h ! a, h ! b) of
           (HObject kvs, HObject kws) \<Rightarrow>
             if length kvs \<noteq> length kws then Inr False
             else everyE (\<lambda>kv. case map_of kws (fst kv) of
                                  None \<Rightarrow> Inr False
                                | Some w \<Rightarrow> isEqual_h n h (snd kv) w) kvs
         | (HArray xs, HArray ys) \<Rightarrow>
             if length xs \<noteq> length ys then Inr False
             else everyE (\<lambda>xy. isEqual_h n h (fst xy) (snd xy)) (zip xs ys)
         | _ \<Rightarrow> Inr False)
      else Inl TypeError)"
| "isEqual_h n h v w = Inr (v = w)"

definition areSubschemasMutuallyExclusive_h ::
  "nat \<Rightarrow> hval \<Rightarrow> hval \<Rightarrow> store \<Rightarrow> string \<Rightarrow> (error + bool) \<times> store" where
  "areSubschemasMutuallyExclusive_h n dependency1 dependency2 h subschemaName =
     (case h_get h dependency2 subschemaName of
        Inl e \<Rightarrow> (Inl e, h)
      | Inr d2 \<Rightarrow>
          if \<not> h_truthy d2 then (Inr False, h)
          else
            (case h_get h dependency1 subschemaName of
               Inl e \<Rightarrow> (Inl e, h)
             | Inr d1 \<Rightarrow>
                 (case cloneDeep_h n h d1 of
                    (Inl e, h1) \<Rightarrow> (Inl e, h1)
                  | (Inr subschema1, h1) \<Rightarrow>
                      (case cloneDeep_h n h1 d2 of
                         (Inl e, h2) \<Rightarrow> (Inl e, h2)
                       | (Inr subschema2, h2) \<Rightarrow>
                           (case removeNot_h n h2 subschema1 of
                              (Inl e, h3) \<Rightarrow> (Inl e, h3)
                            | (Inr subschema1HasNot, h3) \<Rightarrow>
                                (case removeNot_h n h3 subschema2 of
                                   (Inl e, h4) \<Rightarrow> (Inl e, h4)
                                 | (Inr subschema2HasNot, h4) \<Rightarrow>
                                     if \<not> subschema1HasNot \<and> \<not> subschema2HasNot
                                     then (Inr False, h4)
                                     else
                                       (case isEqual_h n h4 subschema1 subschema2 of
                                          Inl e \<Rightarrow> (Inl e, h4)
                                        | Inr same \<Rightarrow> (Inr same, h4))))))))"

text \<open>\<open>names.every(f)\<close> for a callback that changes the store.\<close>

fun every_h ::
  "(store \<Rightarrow> string \<Rightarrow> (error + bool) \<times> store) \<Rightarrow> string list \<Rightarrow> store
     \<Rightarrow> (error + bool) \<times> store" where
  "every_h f [] h = (Inr True, h)"
| "every_h f (k # ks) h =
     (case f h k of
        (Inl e, h1) \<Rightarrow> (Inl e, h1)
      | (Inr b, h1) \<Rightarrow> if b then every_h f ks h1 else (Inr False, h1))"

definition hasMutuallyExclusiveDependencies_h ::
  "nat \<Rightarrow> store \<Rightarrow> hval list \<Rightarrow> (error + bool) \<times> store" where
  "hasMutuallyExclusiveDependencies_h n h oneOf =
     (if length oneOf \<noteq> 2 then (Inr False, h)
      else
        (case h_get h (oneOf ! 0) ''dependencies'' of
           Inl e \<Rightarrow> (Inl e, h)
         | Inr dependency1 \<Rightarrow>
             if \<not> h_truthy dependency1 then (Inr False, h)
             else
               (case h_get h (oneOf ! 1) ''dependencies'' of
                  Inl e \<Rightarrow> (Inl e, h)
                | Inr dependency2 \<Rightarrow>
                    if \<not> h_truthy dependency2 then (Inr False, h)
                    else
                      (case h_keys h dependency1 of
                         Inl e \<Rightarrow> (Inl e, h)
                       | Inr names \<Rightarrow>
                           every_h (areSubschemasMutuallyExclusive_h n dependency1 dependency2)
                             names h))))"


subsection \<open>The part of a store that belongs to the copies\<close>

text \<open>A value is above \<open>L\<close> when it is a scalar or refers to an address from \<open>L\<close> on,
  inside a store of length \<open>n\<close>; a store is closed above \<open>L\<close> when the members of every
  object from \<open>L\<close> on are above \<open>L\<close>: from there, no reference leads below.\<close>

fun aboveVal :: "nat \<Rightarrow> nat \<Rightarrow> hval \<Rightarrow> bool" where
  "aboveVal L n (HRef b) = (L \<le> b \<and> b < n)"
| "aboveVal L n v = True"

fun membersOf :: "hobj \<Rightarrow> hval list" where
  "membersOf (HObject kvs) = map snd kvs"
| "membersOf (HArray xs) = xs"

definition closedAbove :: "nat \<Rightarrow> store \<Rightarrow> bool" where
  "closedAbove L h =
     (\<forall>a. L \<le> a \<and> a < length h \<longrightarrow> (\<forall>v\<in>set (membersOf (h ! a)). aboveVal L (length h) v))"

text \<open>The tree a value of the store stands for, read down to a given depth.\<close>

fun reify :: "nat \<Rightarrow> store \<Rightarrow> hval \<Rightarrow> json option" where
  "reify n h HUndefined = Some JUndefined"
| "reify n h HNull = Some JNull"
| "reify n h (HBool b) = Some (JBool b)"
| "reify n h (HNum i) = Some (JNum i)"
| "reify n h (HStr s) = Some (JStr s)"
| "reify 0 h (HRef a) = None"
| "reify (Suc n) h (HRef a) =
     (if a < length h then
        (case h ! a of
           HObject kvs \<Rightarrow>
             map_option JObj
               (those (map (\<lambda>kv. map_option (Pair (fst kv)) (reify n h (snd kv))) kvs))
         | HArray xs \<Rightarrow> map_option JArr (those (map (\<lambda>x. reify n h x) xs)))
      else None)"


section \<open>Example schemas and instances\<close>

text \<open>The context of a top-level call: the empty property path.\<close>

definition rootContext :: ctx where
  "rootContext = \<lparr>propertyPath = []\<rparr>"

text \<open>\<open>{patternProperties: {x: {enum: [1]}}, additionalProperties: false}\<close> and the
  instance \<open>{x1: 1, y: 2}\<close>.\<close>

definition patternSchema :: json where
  "patternSchema =
     JObj [(''patternProperties'', JObj [(''x'', JObj [(''enum'', JArr [JNum 1])])]),
           (''additionalProperties'', JBool False)]"

definition patternInstance :: "(string \<times> json) list" where
  "patternInstance = [(''x1'', JNum 1), (''y'', JNum 2)]"








text \<open>The two branches of the repository's test "2 and only 2 subschemas with
  contradictory dependencies", and its schema.\<close>

definition contradictoryBranches :: "json list" where
  "contradictoryBranches =
     [JObj [(''dependencies'',
             JObj [(''prop1'', JObj [(''properties'',
                      JObj [(''prop2'', JObj [(''required'', JArr [JStr ''prop3''])])])])]),
            (''properties'', JObj [(''prop1'', JObj [(''enum'', JArr [JStr ''1'', JStr ''2''])])])],
      JObj [(''dependencies'',
             JObj [(''prop1'', JObj [(''properties'',
                      JObj [(''prop2'', JObj [(''not'',
                              JObj [(''required'', JArr [JStr ''prop3''])])])])])]),
            (''properties'', JObj [(''prop1'', JObj [(''enum'', JArr [JStr ''3'', JStr ''4''])])])]]"

definition contradictorySchema :: json where
  "contradictorySchema = JObj [(''oneOf'', JArr contradictoryBranches)]"

text \<open>Two branches with two dependency keys, negated in the second branch, and the
  schema and instance \<open>{p: '3', s: 1, q: {}, t: {u: 1}}\<close> on which each branch fails a
  dependency.\<close>

definition twoKeyBranches :: "json list" where
  "twoKeyBranches =
     [JObj [(''dependencies'',
             JObj [(''p'', JObj [(''properties'',
                      JObj [(''q'', JObj [(''required'', JArr [JStr ''r''])])])]),
                   (''s'', JObj [(''properties'',
                      JObj [(''t'', JObj [(''required'', JArr [JStr ''u''])])])])]),
            (''properties'', JObj [(''p'', JObj [(''enum'', JArr [JStr ''1'', JStr ''2''])])])],
      JObj [(''dependencies'',
             JObj [(''p'', JObj [(''properties'',
                      JObj [(''q'', JObj [(''not'',
                              JObj [(''required'', JArr [JStr ''r''])])])])]),
                   (''s'', JObj [(''properties'',
                      JObj [(''t'', JObj [(''not'',
                              JObj [(''required'', JArr [JStr ''u''])])])])])]),
            (''properties'', JObj [(''p'', JObj [(''enum'', JArr [JStr ''3'', JStr ''4''])])])]]"

definition twoKeySchema :: json where
  "twoKeySchema = JObj [(''oneOf'', JArr twoKeyBranches)]"

definition twoKeyInstance :: json where
  "twoKeyInstance =
     JObj [(''p'', JStr ''3''), (''s'', JNum 1), (''q'', JObj []), (''t'', JObj [(''u'', JNum 1)])]"

text \<open>A \<open>oneOf\<close> with the single branch \<open>{enum: ['1']}\<close>.\<close>

definition singleBranch :: json where
  "singleBranch = JObj [(''enum'', JArr [JStr ''1''])]"

definition singleBranchSchema :: json where
  "singleBranchSchema = JObj [(''oneOf'', JArr [singleBranch])]"

text \<open>The instance \<open>{prop1: '1', prop2: {}}\<close> of the repository's test.\<close>

definition contradictoryInstance :: json where
  "contradictoryInstance = JObj [(''prop1'', JStr ''1''), (''prop2'', JObj [])]"

text \<open>The result of the closed validator, or an empty result when it throws.\<close>

definition resultOf :: "error + vresult \<Rightarrow> vresult" where
  "resultOf x = (case x of Inl e \<Rightarrow> ValidatorResult JUndefined JUndefined rootContext | Inr r \<Rightarrow> r)"

text \<open>A store with the branches \<open>{dependencies: {p: {not: {required: 'r'}}}}\<close> at
  address 3 and \<open>{dependencies: {p: {required: 'r'}}}\<close> at address 6.\<close>

definition exampleStore :: store where
  "exampleStore =
     [HObject [(''not'', HRef 1)],
      HObject [(''required'', HStr ''r'')],
      HObject [(''p'', HRef 0)],
      HObject [(''dependencies'', HRef 2)],
      HObject [(''required'', HStr ''r'')],
      HObject [(''p'', HRef 4)],
      HObject [(''dependencies'', HRef 5)]]"


section \<open>Basic facts\<close>

lemma bindE_Inl [simp]: "bindE (Inl e) f = Inl e"
  by (simp add: bindE_def)

lemma bindE_Inr [simp]: "bindE (Inr x) f = f x"
  by (simp add: bindE_def)

lemma bindE_eq_Inr:
  "bindE m f = Inr y \<longleftrightarrow> (\<exists>x. m = Inr x \<and> f x = Inr y)"
  by (cases m) simp_all

lemma importErrors_errors:
  "vr_errors (importErrors r0 r) = vr_errors r0 @ returnErrors (vr_propertyPath r0) r"
  by (cases r) (simp_all add: addError_def)

lemma contributed_Inr [simp]: "contributed p (Inr r) = Inr (returnErrors p r)"
  by (simp add: contributed_def)

lemma contributed_Inl [simp]: "contributed p (Inl e) = Inl e"
  by (simp add: contributed_def)

lemma ValidatorResult_errors [simp]: "vr_errors (ValidatorResult inst schema c) = []"
  by (simp add: ValidatorResult_def)

lemma ValidatorResult_path [simp]:
  "vr_propertyPath (ValidatorResult inst schema c) = propertyPath c"
  by (simp add: ValidatorResult_def)

lemma ValidatorResult_instance [simp]: "vr_instance (ValidatorResult inst schema c) = inst"
  by (simp add: ValidatorResult_def)

section \<open>Absent instances\<close>

lemma absentOrEmpty_undefined [simp]: "absentOrEmpty JUndefined schema = Inr True"
  by (simp add: absentOrEmpty_def)

lemma undefined_combinators:
  "validateType E JUndefined schema c = Inr RNull"
  "validateAnyOf E JUndefined schema c = Inr RNull"
  "validateAllOf E JUndefined schema c = Inr RNull"
  "validateOneOf E JUndefined schema c = Inr RNull"
  "validateNot E JUndefined schema c = Inr RNull"
  "validateDependencies E JUndefined schema c = Inr RNull"
  by (simp_all add: validateType_def validateAnyOf_def validateAllOf_def validateOneOf_def
      validateNot_def validateDependencies_def)

lemma undefined_structure:
  "validateProperties E JUndefined schema c = Inr RUndefined"
  "validatePatternProperties E JUndefined schema c = Inr RUndefined"
  "validateAdditionalProperties E JUndefined schema c = Inr RUndefined"
  "validateItems E JUndefined schema c = Inr RNull"
  "validateMinProperties E JUndefined schema = Inr RNull"
  "validateMaxProperties E JUndefined schema = Inr RNull"
  "validateMinItems E JUndefined schema = Inr RNull"
  "validateMaxItems E JUndefined schema = Inr RNull"
  by (simp_all add: validateProperties_def validatePatternProperties_def
      validateAdditionalProperties_def validateItems_def validateMinProperties_def
      validateMaxProperties_def validateMinItems_def validateMaxItems_def)

lemma undefined_scalars:
  "validateMinimum E JUndefined schema = Inr RNull"
  "validateMaximum E JUndefined schema = Inr RNull"
  "validateDivisibleBy E JUndefined schema = Inr RNull"
  "validateMultipleOf E JUndefined schema = Inr RNull"
  "validatePattern E JUndefined schema = Inr RNull"
  "validateFormat E JUndefined schema = Inr RNull"
  "validateMinLength E JUndefined schema = Inr RNull"
  "validateMaxLength E JUndefined schema = Inr RNull"
  by (simp_all add: validateMinimum_def validateMaximum_def validateDivisibleBy_def
      validateMultipleOf_def validatePattern_def validateFormat_def validateMinLength_def
      validateMaxLength_def)

lemma undefined_uniqueItems:
  "validateUniqueItems E JUndefined = Inr RNull"
  "validateUniqueItems_first E JUndefined schema c = Inr (RResult (ValidatorResult JUndefined schema c))"
  by (simp_all add: validateUniqueItems_def validateUniqueItems_first_def)

lemma undefined_enum:
  "js_get schema ''enum'' = Inr (JArr vals) \<Longrightarrow> validateEnum E JUndefined schema = Inr RNull"
  by (simp add: validateEnum_def)

text \<open>
  Claim C4. When the instance is \<open>undefined\<close>, every keyword validator other than
  \<open>required\<close> contributes no validation error: type, the combinators, the structural
  keywords and the scalar constraints return before they look at the schema;
  \<open>enum\<close> first checks that the schema is well formed (its \<open>enum\<close> is an array) and
  then returns.
\<close>

theorem absence_is_neutral:
  "contributed p (validateType E JUndefined schema c) = Inr []
   \<and> (js_get schema ''enum'' = Inr (JArr vals)
        \<longrightarrow> contributed p (validateEnum E JUndefined schema) = Inr [])
   \<and> contributed p (validateMinimum E JUndefined schema) = Inr []
   \<and> contributed p (validateMaximum E JUndefined schema) = Inr []
   \<and> contributed p (validateMinLength E JUndefined schema) = Inr []
   \<and> contributed p (validateMaxLength E JUndefined schema) = Inr []
   \<and> contributed p (validateMinItems E JUndefined schema) = Inr []
   \<and> contributed p (validateMaxItems E JUndefined schema) = Inr []
   \<and> contributed p (validateMinProperties E JUndefined schema) = Inr []
   \<and> contributed p (validateMaxProperties E JUndefined schema) = Inr []
   \<and> contributed p (validatePattern E JUndefined schema) = Inr []
   \<and> contributed p (validateFormat E JUndefined schema) = Inr []
   \<and> contributed p (validateDivisibleBy E JUndefined schema) = Inr []
   \<and> contributed p (validateMultipleOf E JUndefined schema) = Inr []
   \<and> contributed p (validateUniqueItems_first E JUndefined schema c) = Inr []
   \<and> contributed p (validateUniqueItems E JUndefined) = Inr []
   \<and> contributed p (validateItems E JUndefined schema c) = Inr []
   \<and> contributed p (validateProperties E JUndefined schema c) = Inr []
   \<and> contributed p (validatePatternProperties E JUndefined schema c) = Inr []
   \<and> contributed p (validateAdditionalProperties E JUndefined schema c) = Inr []
   \<and> contributed p (validateDependencies E JUndefined schema c) = Inr []
   \<and> contributed p (validateAllOf E JUndefined schema c) = Inr []
   \<and> contributed p (validateAnyOf E JUndefined schema c) = Inr []
   \<and> contributed p (validateOneOf E JUndefined schema c) = Inr []
   \<and> contributed p (validateNot E JUndefined schema c) = Inr []"
  by (simp add: undefined_combinators undefined_structure undefined_scalars
      undefined_uniqueItems undefined_enum)


section \<open>Decimal numerals as array indices\<close>

lemma of_char_digit_char: "d < 10 \<Longrightarrow> (of_char (digit_char d) :: nat) = 48 + d"
  by (simp add: digit_char_def)

lemma is_digit_digit_char: "d < 10 \<Longrightarrow> is_digit (digit_char d)"
  by (simp add: is_digit_def of_char_digit_char)

lemma showNat_digits: "list_all is_digit (showNat n)"
proof (induction n rule: showNat.induct)
  case (1 n)
  show ?case
  proof (cases "n < 10")
    case True
    then show ?thesis by (subst showNat.simps) (simp add: is_digit_digit_char)
  next
    case False
    then show ?thesis using 1 by (subst showNat.simps) (simp add: is_digit_digit_char)
  qed
qed

lemma readNat_snoc: "readNat (t @ [ch]) = 10 * readNat t + (of_char ch - 48)"
  by (simp add: readNat_def)

lemma readNat_showNat: "readNat (showNat n) = n"
proof (induction n rule: showNat.induct)
  case (1 n)
  show ?case
  proof (cases "n < 10")
    case True
    then show ?thesis by (subst showNat.simps) (simp add: readNat_def of_char_digit_char)
  next
    case False
    then have "readNat (showNat n) = 10 * readNat (showNat (n div 10)) + (n mod 10)"
      by (subst showNat.simps) (simp add: readNat_snoc of_char_digit_char)
    then show ?thesis using 1 False by simp
  qed
qed

lemma showNat_hd: "0 < n \<Longrightarrow> hd (showNat n) \<noteq> CHR ''0''"
proof (induction n rule: showNat.induct)
  case (1 n)
  show ?case
  proof (cases "n < 10")
    case True
    have "(of_char (digit_char n) :: nat) \<noteq> of_char (CHR ''0'')"
      using True "1.prems" by (simp add: of_char_digit_char)
    then have "digit_char n \<noteq> CHR ''0''" by metis
    then show ?thesis using True by (subst showNat.simps) simp
  next
    case False
    then have "0 < n div 10" by simp
    then have "hd (showNat (n div 10)) \<noteq> CHR ''0''" using 1 False by simp
    moreover have "showNat (n div 10) \<noteq> []" by (subst showNat.simps) simp
    ultimately show ?thesis using False by (subst showNat.simps) simp
  qed
qed

lemma digit_char_zero: "digit_char 0 = CHR ''0''"
  by code_simp

lemma showNat_zero: "showNat 0 = ''0''"
  by (subst showNat.simps) (simp add: digit_char_zero)

lemma index_of_key_showNat: "index_of_key (showNat n) = Some n"
proof (cases "n = 0")
  case True
  then show ?thesis by (simp add: index_of_key_def showNat_zero readNat_def is_digit_def)
next
  case False
  have "showNat n \<noteq> []" by (subst showNat.simps) simp
  then show ?thesis
    using False by (simp add: index_of_key_def showNat_digits readNat_showNat showNat_hd)
qed

lemma showNat_not_length: "showNat n \<noteq> ''length''"
proof
  assume "showNat n = ''length''"
  then have "list_all is_digit ''length''" using showNat_digits [of n] by simp
  then show False by (simp add: is_digit_def)
qed

lemma js_get_array_index:
  "js_get (JArr ss) (showNat i) = Inr (if i < length ss then ss ! i else JUndefined)"
  by (simp add: showNat_not_length index_of_key_showNat)



section \<open>Malformed schemas\<close>

lemma enum_not_array:
  "js_get schema ''enum'' = Inr en \<Longrightarrow> \<not> isArray en
   \<Longrightarrow> validateEnum E inst schema = Inl (SchemaError ''enum expects an array'')"
  by (simp add: validateEnum_def)

lemma anyOf_not_array:
  "inst \<noteq> JUndefined \<Longrightarrow> js_get schema ''anyOf'' = Inr a \<Longrightarrow> \<not> isArray a
   \<Longrightarrow> validateAnyOf E inst schema c = Inl (SchemaError ''anyOf must be an array'')"
  by (simp add: validateAnyOf_def)

lemma allOf_not_array:
  "inst \<noteq> JUndefined \<Longrightarrow> js_get schema ''allOf'' = Inr a \<Longrightarrow> \<not> isArray a
   \<Longrightarrow> validateAllOf E inst schema c = Inl (SchemaError ''allOf must be an array'')"
  by (simp add: validateAllOf_def)

lemma oneOf_not_array:
  "inst \<noteq> JUndefined \<Longrightarrow> js_get schema ''oneOf'' = Inr a \<Longrightarrow> \<not> isArray a
   \<Longrightarrow> validateOneOf E inst schema c = Inl (SchemaError ''oneOf must be an array'')"
  by (simp add: validateOneOf_def)

lemma divisibleBy_zero:
  "js_get schema ''divisibleBy'' = Inr d \<Longrightarrow> js_looseEqZero E d
   \<Longrightarrow> validateDivisibleBy E (JNum n) schema = Inl (SchemaError ''divisibleBy cannot be zero'')"
  by (simp add: validateDivisibleBy_def)

lemma multipleOf_zero:
  "js_get schema ''multipleOf'' = Inr d \<Longrightarrow> js_looseEqZero E d
   \<Longrightarrow> validateMultipleOf E (JNum n) schema = Inl (SchemaError ''multipleOf cannot be zero'')"
  by (simp add: validateMultipleOf_def)

text \<open>
  Claim C5. A malformed schema makes the validator raise a SchemaError instead of
  returning anything that could be collected: \<open>enum\<close> that is not an array (for every
  instance), \<open>anyOf\<close>, \<open>allOf\<close> or \<open>oneOf\<close> that is not an array (for every instance other
  than \<open>undefined\<close>), and \<open>divisibleBy\<close> or \<open>multipleOf\<close> that equals zero under \<open>==\<close>, as
  the number 0 does (for every number instance).
\<close>

theorem malformed_schema_raises:
  "(js_get schema ''enum'' = Inr en \<and> \<not> isArray en
      \<longrightarrow> validateEnum E inst schema = Inl (SchemaError ''enum expects an array''))
   \<and> (inst \<noteq> JUndefined \<and> js_get schema ''anyOf'' = Inr a1 \<and> \<not> isArray a1
      \<longrightarrow> validateAnyOf E inst schema c = Inl (SchemaError ''anyOf must be an array''))
   \<and> (inst \<noteq> JUndefined \<and> js_get schema ''allOf'' = Inr a2 \<and> \<not> isArray a2
      \<longrightarrow> validateAllOf E inst schema c = Inl (SchemaError ''allOf must be an array''))
   \<and> (inst \<noteq> JUndefined \<and> js_get schema ''oneOf'' = Inr a3 \<and> \<not> isArray a3
      \<longrightarrow> validateOneOf E inst schema c = Inl (SchemaError ''oneOf must be an array''))
   \<and> (js_get schema ''divisibleBy'' = Inr d1 \<and> js_looseEqZero E d1
      \<longrightarrow> validateDivisibleBy E (JNum n) schema = Inl (SchemaError ''divisibleBy cannot be zero''))
   \<and> (js_get schema ''multipleOf'' = Inr d2 \<and> js_looseEqZero E d2
      \<longrightarrow> validateMultipleOf E (JNum n) schema = Inl (SchemaError ''multipleOf cannot be zero''))
   \<and> js_looseEqZero E (JNum 0)"
  by (simp add: enum_not_array anyOf_not_array allOf_not_array oneOf_not_array
      divisibleBy_zero multipleOf_zero)


section \<open>The two definitions of uniqueItems\<close>

lemma testArrays_inner_loop_iff:
  "testArrays_inner_loop E v a j
     \<longleftrightarrow> (\<forall>k. j \<le> k \<and> k < length a \<longrightarrow> \<not> helpers_deepCompareStrict E v (a ! k))"
proof (induction E v a j rule: testArrays_inner_loop.induct)
  case (1 E v a j)
  show ?case
  proof (cases "j < length a")
    case False
    then show ?thesis by (auto simp: testArrays_inner_loop.simps [of E v a j])
  next
    case True
    show ?thesis
    proof (cases "helpers_deepCompareStrict E v (a ! j)")
      case True
      with \<open>j < length a\<close> show ?thesis
        by (auto simp: testArrays_inner_loop.simps [of E v a j])
    next
      case False
      have "testArrays_inner_loop E v a j = testArrays_inner_loop E v a (j + 1)"
        using \<open>j < length a\<close> False by (simp add: testArrays_inner_loop.simps [of E v a j])
      also have "\<dots> \<longleftrightarrow> (\<forall>k. j + 1 \<le> k \<and> k < length a
                              \<longrightarrow> \<not> helpers_deepCompareStrict E v (a ! k))"
        using "1.IH" \<open>j < length a\<close> False by simp
      also have "\<dots> \<longleftrightarrow> (\<forall>k. j \<le> k \<and> k < length a
                              \<longrightarrow> \<not> helpers_deepCompareStrict E v (a ! k))"
        using False by (metis Suc_eq_plus1 Suc_leI le_eq_less_or_eq Suc_leD)
      finally show ?thesis .
    qed
  qed
qed

lemma testArrays_loop_iff:
  "len \<le> length a \<Longrightarrow>
   testArrays_loop E v a len j
     \<longleftrightarrow> (\<forall>k. j \<le> k \<and> k < len \<longrightarrow> \<not> helpers_deepCompareStrict E v (a ! k))"
proof (induction E v a len j rule: testArrays_loop.induct)
  case (1 E v a len j)
  show ?case
  proof (cases "j < len")
    case False
    then show ?thesis by (auto simp: testArrays_loop.simps [of E v a len j])
  next
    case True
    then have inb: "j < length a" using "1.prems" by simp
    show ?thesis
    proof (cases "helpers_deepCompareStrict E v (a ! j)")
      case True
      with \<open>j < len\<close> inb show ?thesis
        by (auto simp: testArrays_loop.simps [of E v a len j])
    next
      case False
      have "testArrays_loop E v a len j = testArrays_loop E v a len (j + 1)"
        using \<open>j < len\<close> inb False by (simp add: testArrays_loop.simps [of E v a len j])
      also have "\<dots> \<longleftrightarrow> (\<forall>k. j + 1 \<le> k \<and> k < len
                              \<longrightarrow> \<not> helpers_deepCompareStrict E v (a ! k))"
        using "1.IH" \<open>j < len\<close> inb False "1.prems" by simp
      also have "\<dots> \<longleftrightarrow> (\<forall>k. j \<le> k \<and> k < len
                              \<longrightarrow> \<not> helpers_deepCompareStrict E v (a ! k))"
        using False by (metis Suc_eq_plus1 Suc_leI le_eq_less_or_eq Suc_leD)
      finally show ?thesis .
    qed
  qed
qed

lemma list_all_indexed:
  "list_all P (zip [0..<length xs] xs) \<longleftrightarrow> (\<forall>i<length xs. P (i, xs ! i))"
  by (simp add: list_all_length)

lemma hasDuplicate_array:
  "hasDuplicate E (JArr xs)
     \<longleftrightarrow> (\<exists>i k. i < k \<and> k < length xs \<and> helpers_deepCompareStrict E (xs ! i) (xs ! k))"
  by (fastforce simp: hasDuplicate_def list_ex_iff)

lemma every_testArrays_inner:
  "list_all (\<lambda>iv. testArrays_inner E (snd iv) (fst iv) xs) (zip [0..<length xs] xs)
     \<longleftrightarrow> \<not> hasDuplicate E (JArr xs)"
  unfolding list_all_indexed hasDuplicate_array testArrays_inner_def testArrays_inner_loop_iff
  by (auto simp: Suc_le_eq)

lemma every_testArrays:
  "list_all (\<lambda>iv. testArrays E (snd iv) (fst iv) xs) (zip [0..<length xs] xs)
     \<longleftrightarrow> \<not> hasDuplicate E (JArr xs)"
  unfolding list_all_indexed hasDuplicate_array testArrays_def Let_def
    testArrays_loop_iff [OF order_refl]
  by (auto simp: Suc_le_eq)

lemma hasDuplicate_not_array: "\<not> isArray inst \<Longrightarrow> \<not> hasDuplicate E inst"
  by (cases inst) (simp_all add: hasDuplicate_def)

lemma uniqueItems_first_errors:
  "contributed p (validateUniqueItems_first E inst schema c)
     = Inr (if hasDuplicate E inst
            then [\<lparr>message = ''contains duplicate item'', property = JStr (propertyPath c)\<rparr>]
            else [])"
proof (cases inst)
  case (JArr xs)
  then show ?thesis
    by (simp add: validateUniqueItems_first_def every_testArrays_inner addError_def)
qed (simp_all add: validateUniqueItems_first_def hasDuplicate_def)

lemma uniqueItems_second_errors:
  "contributed p (validateUniqueItems E inst)
     = Inr (if hasDuplicate E inst
            then [\<lparr>message = ''contains duplicate item'', property = JStr p\<rparr>]
            else [])"
proof (cases inst)
  case (JArr xs)
  then show ?thesis
    by (simp add: validateUniqueItems_def every_testArrays)
qed (simp_all add: validateUniqueItems_def hasDuplicate_def)

text \<open>
  Claim C10. The two definitions of \<open>validators.uniqueItems\<close> agree: read by an
  accumulator at the path of the context, each contributes the single error
  "contains duplicate item" when the instance is an array with two elements at distinct
  indices that are equal for \<open>deepCompareStrict\<close>, and no error otherwise, in particular
  for every instance that is not an array.
\<close>

theorem uniqueItems_definitions_agree:
  "contributed (propertyPath c) (validateUniqueItems_first E inst schema c)
     = Inr (if hasDuplicate E inst
            then [\<lparr>message = ''contains duplicate item'', property = JStr (propertyPath c)\<rparr>]
            else [])
   \<and> contributed (propertyPath c) (validateUniqueItems E inst)
     = contributed (propertyPath c) (validateUniqueItems_first E inst schema c)
   \<and> (hasDuplicate E inst
        = (\<exists>xs i k. inst = JArr xs \<and> i < k \<and> k < length xs
             \<and> helpers_deepCompareStrict E (xs ! i) (xs ! k)))"
proof -
  have "hasDuplicate E inst
        = (\<exists>xs i k. inst = JArr xs \<and> i < k \<and> k < length xs
             \<and> helpers_deepCompareStrict E (xs ! i) (xs ! k))"
  proof (cases inst)
    case (JArr xs)
    then show ?thesis by (simp add: hasDuplicate_array)
  qed (simp_all add: hasDuplicate_def)
  then show ?thesis
    by (simp only: uniqueItems_first_errors uniqueItems_second_errors simp_thms)
qed


section \<open>allOf\<close>

lemma showNat_nonempty: "showNat n \<noteq> []"
  by (subst showNat.simps) simp

lemma showInt_nonempty: "showInt i \<noteq> []"
  by (simp add: showInt_def showNat_nonempty)

lemma stringify_truthy:
  "js_truthy v \<Longrightarrow> \<exists>t. JSON_stringify v = Some t \<and> t \<noteq> []"
  by (cases v) (simp_all add: showInt_nonempty json_quote_def)

lemma js_get_defined:
  "v \<noteq> JNull \<Longrightarrow> v \<noteq> JUndefined \<Longrightarrow> js_get v k = Inr (js_prop v k)"
  by (cases v) (simp_all add: js_prop_def)

lemma schemaLabel_eq:
  assumes "m \<noteq> JNull" "m \<noteq> JUndefined" "dflt \<noteq> []"
  shows "schemaLabel m dflt = Inr (memberLabel m dflt)"
proof -
  obtain t where t: "js_truthy (js_prop m ''title'') \<Longrightarrow>
      JSON_stringify (js_prop m ''title'') = Some t \<and> t \<noteq> []"
    using stringify_truthy by meson
  show ?thesis
    using t by (auto simp: schemaLabel_def memberLabel_def js_get_defined [OF assms(1,2)]
        js_or_def js_and_def stringify_value_def)
qed

lemma allOf_step_eq:
  assumes "m \<noteq> JNull" "m \<noteq> JUndefined" "this_validateSchema E inst m c = Inr r"
    and "vr_propertyPath r0 = propertyPath c"
  shows "allOf_step E inst c r0 m = Inr (r0\<lparr>vr_errors := vr_errors r0 @ allOfMemberErrors c m r\<rparr>)"
  using assms
  by (simp add: allOf_step_def valid_def schemaLabel_eq allOfMemberErrors_def addError_def)

lemma allOf_fold:
  assumes "\<forall>m\<in>set members. m \<noteq> JNull \<and> m \<noteq> JUndefined \<and> this_validateSchema E inst m c = Inr (res m)"
    and "vr_propertyPath r0 = propertyPath c"
  shows "foldE (allOf_step E inst c) r0 members
           = Inr (r0\<lparr>vr_errors := vr_errors r0
                       @ concat (map (\<lambda>m. allOfMemberErrors c m (res m)) members)\<rparr>)"
  using assms
proof (induction members arbitrary: r0)
  case Nil
  then show ?case by simp
next
  case (Cons m ms)
  then show ?case by (simp add: allOf_step_eq)
qed

text \<open>
  Claim C6. For a schema whose \<open>allOf\<close> is an array and an instance other than
  \<open>undefined\<close>, the result of the validator lists, member after member in the order of
  the array, nothing for a member that validates and, for a member that fails, one
  wrapping error "does not match allOf schema <id> with N error[s]:" followed by that
  member's errors; N is the number of these errors and <id> is the member's label. The
  members are schemas (neither \<open>null\<close> nor \<open>undefined\<close>) and the orchestrator returns a
  result for each of them.
\<close>

theorem allOf_wraps_failing_members:
  assumes "inst \<noteq> JUndefined"
    and "js_get schema ''allOf'' = Inr (JArr members)"
    and "\<forall>m\<in>set members. m \<noteq> JNull \<and> m \<noteq> JUndefined
            \<and> this_validateSchema E inst m c = Inr (res m)"
  shows "validateAllOf E inst schema c
           = Inr (RResult ((ValidatorResult inst schema c)
                    \<lparr>vr_errors := concat (map (\<lambda>m. allOfMemberErrors c m (res m)) members)\<rparr>))"
proof -
  have "foldE (allOf_step E inst c) (ValidatorResult inst schema c) members
          = Inr ((ValidatorResult inst schema c)
                   \<lparr>vr_errors := concat (map (\<lambda>m. allOfMemberErrors c m (res m)) members)\<rparr>)"
    using allOf_fold [OF assms(3), of "ValidatorResult inst schema c"] by simp
  then show ?thesis
    using assms(1,2) by (simp add: validateAllOf_def)
qed



section \<open>items with additionalItems false\<close>

lemma writeBack_array:
  assumes "isArray (vr_instance r)"
  shows "\<exists>r'. writeBack r k res = Inr r' \<and> vr_errors r' = vr_errors r
            \<and> vr_propertyPath r' = vr_propertyPath r \<and> isArray (vr_instance r')"
proof -
  obtain ys where ys: "vr_instance r = JArr ys"
    using assms by (cases "vr_instance r") simp_all
  show ?thesis
    by (simp add: writeBack_def ys split: option.splits)
qed

lemma items_callback_overflow:
  assumes "js_get schema ''items'' = Inr (JArr ss)"
    and "js_get schema ''additionalItems'' = Inr (JBool False)"
    and "length ss \<le> i"
  shows "items_callback E schema c r (i, v)
           = Inr (False, addError r ''additionalItems not permitted'' JUndefined)"
  using assms by (simp add: items_callback_def js_get_array_index js_or_def del: js_get.simps)

lemma items_callback_positional:
  assumes "js_get schema ''items'' = Inr (JArr ss)"
    and "js_get schema ''additionalItems'' = Inr ai"
    and "i < length ss" and "js_truthy (ss ! i)"
    and "this_validateSchema E v (ss ! i) (makeChild c (ss ! i) (JNum (int i))) = Inr res"
    and "isArray (vr_instance r)"
  shows "\<exists>r'. items_callback E schema c r (i, v) = Inr (True, r')
            \<and> vr_errors r' = vr_errors r @ vr_errors res
            \<and> vr_propertyPath r' = vr_propertyPath r \<and> isArray (vr_instance r')"
proof -
  obtain r1 where r1: "writeBack r (showNat i) res = Inr r1" "vr_errors r1 = vr_errors r"
      "vr_propertyPath r1 = vr_propertyPath r" "isArray (vr_instance r1)"
    using writeBack_array [OF assms(6)] by blast
  have nf: "ss ! i \<noteq> JUndefined" "ss ! i \<noteq> JBool False"
    using assms(4) by auto
  show ?thesis
    using assms(1-3,5) nf r1 assms(4)
    by (simp add: items_callback_def js_get_array_index js_or_def del: js_get.simps)
qed

lemma items_scan:
  assumes "js_get schema ''items'' = Inr (JArr ss)"
    and "js_get schema ''additionalItems'' = Inr (JBool False)"
    and "\<forall>s\<in>set ss. js_truthy s"
    and "length ss < length xs"
    and "\<forall>i<length ss. this_validateSchema E (xs ! i) (ss ! i)
             (makeChild c (ss ! i) (JNum (int i))) = Inr (res i)"
    and "k \<le> length ss" and "isArray (vr_instance r)"
  shows "\<exists>r'. everyS (items_callback E schema c) r (zip [k..<length xs] (drop k xs)) = Inr r'
            \<and> vr_errors r' = vr_errors r @ concat (map (\<lambda>i. vr_errors (res i)) [k..<length ss])
                 @ [\<lparr>message = ''additionalItems not permitted'',
                      property = JStr (vr_propertyPath r)\<rparr>]"
  using assms(6,7)
proof (induction "length ss - k" arbitrary: k r)
  case 0
  then have k: "k = length ss" by simp
  have lt: "k < length xs" using k assms(4) by simp
  have z: "zip [k..<length xs] (drop k xs) = (k, xs ! k) # zip [Suc k..<length xs] (drop (Suc k) xs)"
    using lt by (simp add: upt_conv_Cons Cons_nth_drop_Suc [symmetric])
  have cb: "items_callback E schema c r (k, xs ! k)
              = Inr (False, addError r ''additionalItems not permitted'' JUndefined)"
    using items_callback_overflow [OF assms(1,2), of k E c r "xs ! k"] k by simp
  have "everyS (items_callback E schema c) r (zip [k..<length xs] (drop k xs))
          = Inr (addError r ''additionalItems not permitted'' JUndefined)"
    unfolding z by (simp add: cb)
  then show ?case
    using k by (simp add: addError_def)
next
  case (Suc d)
  then have klt: "k < length ss" by simp
  then have lt: "k < length xs" using assms(4) by simp
  have z: "zip [k..<length xs] (drop k xs) = (k, xs ! k) # zip [Suc k..<length xs] (drop (Suc k) xs)"
    using lt by (simp add: upt_conv_Cons Cons_nth_drop_Suc [symmetric])
  have tr: "js_truthy (ss ! k)" using assms(3) klt by simp
  have vs: "this_validateSchema E (xs ! k) (ss ! k) (makeChild c (ss ! k) (JNum (int k))) = Inr (res k)"
    using assms(5) klt by simp
  obtain r1 where r1: "items_callback E schema c r (k, xs ! k) = Inr (True, r1)"
      "vr_errors r1 = vr_errors r @ vr_errors (res k)"
      "vr_propertyPath r1 = vr_propertyPath r" "isArray (vr_instance r1)"
    using items_callback_positional [OF assms(1,2) klt tr vs Suc.prems(2)] by blast
  have d: "d = length ss - Suc k" using Suc.hyps(2) by simp
  obtain r' where r': "everyS (items_callback E schema c) r1
        (zip [Suc k..<length xs] (drop (Suc k) xs)) = Inr r'"
      "vr_errors r' = vr_errors r1 @ concat (map (\<lambda>i. vr_errors (res i)) [Suc k..<length ss])
                 @ [\<lparr>message = ''additionalItems not permitted'',
                      property = JStr (vr_propertyPath r1)\<rparr>]"
    using Suc.hyps(1) [OF d _ r1(4)] klt by auto
  have "everyS (items_callback E schema c) r (zip [k..<length xs] (drop k xs)) = Inr r'"
    unfolding z by (simp add: r1(1) r'(1))
  then show ?case
    using r1 r' klt by (simp add: upt_conv_Cons)
qed

text \<open>
  Claim C8. Let \<open>items\<close> be an array of positional sub-schemas (truthy values, as every
  schema object is), \<open>additionalItems\<close> be \<open>false\<close>, and the instance be an array longer
  than \<open>items\<close>. The validator returns a result whose errors are those of the positional
  elements, in order, followed by the single error "additionalItems not permitted" for the
  first element beyond the list. Nothing is assumed about the elements after it and
  nothing of them reaches the result: the scan has stopped.
\<close>

theorem additionalItems_false_stops_scan:
  assumes "js_get schema ''items'' = Inr (JArr ss)"
    and "js_get schema ''additionalItems'' = Inr (JBool False)"
    and "\<forall>s\<in>set ss. js_truthy s"
    and "length ss < length xs"
    and "\<forall>i<length ss. this_validateSchema E (xs ! i) (ss ! i)
             (makeChild c (ss ! i) (JNum (int i))) = Inr (res i)"
  shows "\<exists>r. validateItems E (JArr xs) schema c = Inr (RResult r)
           \<and> vr_errors r = concat (map (\<lambda>i. vr_errors (res i)) [0..<length ss])
                 @ [\<lparr>message = ''additionalItems not permitted'',
                      property = JStr (propertyPath c)\<rparr>]"
proof -
  obtain r where r: "everyS (items_callback E schema c) (ValidatorResult (JArr xs) schema c)
        (zip [0..<length xs] (drop 0 xs)) = Inr r"
      "vr_errors r = vr_errors (ValidatorResult (JArr xs) schema c)
            @ concat (map (\<lambda>i. vr_errors (res i)) [0..<length ss])
            @ [\<lparr>message = ''additionalItems not permitted'',
                 property = JStr (vr_propertyPath (ValidatorResult (JArr xs) schema c))\<rparr>]"
    using items_scan [OF assms, of 0 "ValidatorResult (JArr xs) schema c"] by auto
  show ?thesis
    using r assms(1) by (simp add: validateItems_def)
qed



section \<open>patternProperties and additionalProperties\<close>

lemma foldE_cong_set:
  "(\<And>s x. x \<in> set xs \<Longrightarrow> f s x = g s x) \<Longrightarrow> foldE f s xs = foldE g s xs"
  by (induction xs arbitrary: s) (simp_all split: sum.splits)

lemma pattern_fold:
  assumes "\<forall>p\<in>set ps. \<exists>b. regExpTest E (JStr p) k = Inr b"
  shows "foldE (pattern_step E c pp k) (t, r) ps
           = (case validateMatching E c pp k r
                     (filter (\<lambda>p. regExpTest E (JStr p) k = Inr True) ps) of
                Inl e \<Rightarrow> Inl e
              | Inr r' \<Rightarrow>
                  Inr (t \<and> filter (\<lambda>p. regExpTest E (JStr p) k = Inr True) ps = [], r'))"
  using assms
proof (induction ps arbitrary: t r)
  case Nil
  then show ?case by simp
next
  case (Cons p ps)
  then obtain b where b: "regExpTest E (JStr p) k = Inr b" by auto
  have rest: "\<forall>p\<in>set ps. \<exists>b. regExpTest E (JStr p) k = Inr b" using Cons.prems by simp
  let ?m = "\<lambda>p. regExpTest E (JStr p) k = Inr True"
  show ?case
  proof (cases b)
    case False
    have step: "pattern_step E c pp k (t, r) p = Inr (t, r)"
      using b False by (simp add: pattern_step_def)
    have f: "filter ?m (p # ps) = filter ?m ps" using b False by simp
    have "foldE (pattern_step E c pp k) (t, r) (p # ps) = foldE (pattern_step E c pp k) (t, r) ps"
      by (simp add: step)
    then show ?thesis unfolding f using Cons.IH [OF rest, of t r] by simp
  next
    case True
    have f: "filter ?m (p # ps) = p # filter ?m ps" using b True by simp
    show ?thesis
    proof (cases "pattern_step E c pp k (t, r) p")
      case (Inl e)
      then have "validateMatching E c pp k r (p # filter ?m ps) = Inl e"
        using b True by (auto simp: pattern_step_def bindE_def split: sum.splits)
      then show ?thesis unfolding f using Inl by simp
    next
      case (Inr st)
      then obtain v sub res r1 where
        v: "js_get (vr_instance r) k = Inr v" and sub: "js_get pp p = Inr sub"
        and res: "this_validateSchema E v sub (makeChild c sub (JStr k)) = Inr res"
        and r1: "writeBack r k res = Inr r1"
        and st: "st = (False, importErrors r1 (RResult res))"
        using b True by (auto simp: pattern_step_def bindE_def split: sum.splits)
      have vm: "validateMatching E c pp k r (p # filter ?m ps)
                  = validateMatching E c pp k (importErrors r1 (RResult res)) (filter ?m ps)"
        using v sub res r1 by simp
      have "foldE (pattern_step E c pp k) (t, r) (p # ps)
              = foldE (pattern_step E c pp k) (False, importErrors r1 (RResult res)) ps"
        using Inr st by simp
      then show ?thesis
        unfolding f vm using Cons.IH [OF rest, of False "importErrors r1 (RResult res)"]
        by (simp split: sum.splits)
    qed
  qed
qed

lemma patternProperties_step_eq:
  assumes "\<forall>p\<in>set (forin_keys pp). \<exists>b. regExpTest E (JStr p) k = Inr b"
  shows "patternProperties_step E schema c pp r k = patternOrAdditional E schema c pp r k"
  using pattern_fold [OF assms, of c pp True r]
  by (simp add: patternProperties_step_def patternOrAdditional_def matchingPatterns_def
      bindE_def split: sum.splits)

lemma validateMatching_errors:
  assumes "validateMatching E c pp k r ps = Inr r'"
  shows "\<exists>rs. vr_errors r' = vr_errors r @ concat (map vr_errors rs)
           \<and> length rs = length ps
           \<and> (\<forall>res\<in>set rs. \<exists>v p. p \<in> set ps
                  \<and> this_validateSchema E v (js_prop pp p) (makeChild c (js_prop pp p) (JStr k))
                      = Inr res)"
  using assms
proof (induction ps arbitrary: r)
  case Nil
  then show ?case by simp
next
  case (Cons p ps)
  from Cons.prems obtain v sub res r1 where
    v: "js_get (vr_instance r) k = Inr v" and sub: "js_get pp p = Inr sub"
    and res: "this_validateSchema E v sub (makeChild c sub (JStr k)) = Inr res"
    and r1: "writeBack r k res = Inr r1"
    and rest: "validateMatching E c pp k (importErrors r1 (RResult res)) ps = Inr r'"
    by (auto split: sum.splits)
  have subp: "sub = js_prop pp p" using sub by (simp add: js_prop_def)
  have e1: "vr_errors r1 = vr_errors r"
    using r1 by (auto simp: writeBack_def bindE_def split: sum.splits if_splits)
  obtain rs where rs: "vr_errors r' = vr_errors (importErrors r1 (RResult res)) @ concat (map vr_errors rs)"
      "length rs = length ps"
      "\<forall>res\<in>set rs. \<exists>v p. p \<in> set ps
          \<and> this_validateSchema E v (js_prop pp p) (makeChild c (js_prop pp p) (JStr k)) = Inr res"
    using Cons.IH [OF rest] by blast
  have "vr_errors r' = vr_errors r @ concat (map vr_errors (res # rs))"
    using rs(1) e1 by simp
  moreover have "length (res # rs) = length (p # ps)" using rs(2) by simp
  moreover have "\<forall>x\<in>set (res # rs). \<exists>v q. q \<in> set (p # ps)
          \<and> this_validateSchema E v (js_prop pp q) (makeChild c (js_prop pp q) (JStr k)) = Inr x"
    using rs(3) res subp by (metis list.set_intros(1) list.set_intros(2) set_ConsD)
  ultimately show ?case by blast
qed

lemma additionalProperties_deferred:
  assumes "js_get schema ''patternProperties'' = Inr pp" and "js_truthy pp"
  shows "contributed q (validateAdditionalProperties E inst schema c) = Inr []"
  using assms by (simp add: validateAdditionalProperties_def)

lemma patternProperties_pass:
  assumes "js_get schema ''patternProperties'' = Inr pp" and "js_truthy pp"
    and "\<forall>k\<in>set (map fst kvs). \<forall>p\<in>set (forin_keys pp). \<exists>b. regExpTest E (JStr p) k = Inr b"
  shows "validatePatternProperties E (JObj kvs) schema c
           = bindE (foldE (patternOrAdditional E schema c pp)
                      (ValidatorResult (JObj kvs) schema c) (map fst kvs))
               (\<lambda>r. Inr (RResult r))"
proof -
  have "foldE (patternProperties_step E schema c pp) (ValidatorResult (JObj kvs) schema c)
            (map fst kvs)
          = foldE (patternOrAdditional E schema c pp) (ValidatorResult (JObj kvs) schema c)
            (map fst kvs)"
  proof (rule foldE_cong_set)
    fix s x
    assume "x \<in> set (map fst kvs)"
    then have "\<forall>p\<in>set (forin_keys pp). \<exists>b. regExpTest E (JStr p) x = Inr b"
      using assms(3) by blast
    then show "patternProperties_step E schema c pp s x = patternOrAdditional E schema c pp s x"
      by (rule patternProperties_step_eq)
  qed
  then show ?thesis
    using assms(1,2) by (simp add: validatePatternProperties_def js_or_def)
qed

text \<open>
  Claim C7. Let the schema declare \<open>patternProperties\<close> (a truthy value) and let the
  patterns be well-formed regular expressions. Then the validator of
  \<open>additionalProperties\<close> contributes nothing, whatever the instance; the validator of
  \<open>patternProperties\<close> visits every own key of an object instance once, in order, and
  handles it by \<open>patternOrAdditional\<close>: a key that some pattern matches is validated
  against the sub-schemas of the matching patterns and of no other, and every error it
  adds is an error of one of these validations, so that the check of additional
  properties never sees it; a key that no pattern matches goes to that check.
\<close>

theorem patternProperties_take_over_additionalProperties:
  assumes "js_get schema ''patternProperties'' = Inr pp" and "js_truthy pp"
    and "\<forall>k\<in>set (map fst kvs). \<forall>p\<in>set (forin_keys pp). \<exists>b. regExpTest E (JStr p) k = Inr b"
  shows "contributed q (validateAdditionalProperties E inst schema c) = Inr []
    \<and> validatePatternProperties E (JObj kvs) schema c
        = bindE (foldE (patternOrAdditional E schema c pp)
                   (ValidatorResult (JObj kvs) schema c) (map fst kvs))
            (\<lambda>r. Inr (RResult r))
    \<and> (\<forall>k r r'. matchingPatterns E pp k \<noteq> [] \<and> patternOrAdditional E schema c pp r k = Inr r'
          \<longrightarrow> (\<exists>rs. vr_errors r' = vr_errors r @ concat (map vr_errors rs)
                 \<and> length rs = length (matchingPatterns E pp k)
                 \<and> (\<forall>res\<in>set rs. \<exists>v p. p \<in> set (matchingPatterns E pp k)
                       \<and> this_validateSchema E v (js_prop pp p)
                            (makeChild c (js_prop pp p) (JStr k)) = Inr res)))
    \<and> (\<forall>k r. matchingPatterns E pp k = []
          \<longrightarrow> patternOrAdditional E schema c pp r k = testAdditionalProperty E schema c k r)"
proof (intro conjI allI impI)
  show "contributed q (validateAdditionalProperties E inst schema c) = Inr []"
    by (rule additionalProperties_deferred [OF assms(1,2)])
  show "validatePatternProperties E (JObj kvs) schema c
        = bindE (foldE (patternOrAdditional E schema c pp)
                   (ValidatorResult (JObj kvs) schema c) (map fst kvs))
            (\<lambda>r. Inr (RResult r))"
    by (rule patternProperties_pass [OF assms])
next
  fix k r r'
  assume a: "matchingPatterns E pp k \<noteq> [] \<and> patternOrAdditional E schema c pp r k = Inr r'"
  then have "validateMatching E c pp k r (matchingPatterns E pp k) = Inr r'"
    by (auto simp: patternOrAdditional_def)
  then show "\<exists>rs. vr_errors r' = vr_errors r @ concat (map vr_errors rs)
                 \<and> length rs = length (matchingPatterns E pp k)
                 \<and> (\<forall>res\<in>set rs. \<exists>v p. p \<in> set (matchingPatterns E pp k)
                       \<and> this_validateSchema E v (js_prop pp p)
                            (makeChild c (js_prop pp p) (JStr k)) = Inr res)"
    by (rule validateMatching_errors)
next
  fix k r
  assume "matchingPatterns E pp k = []"
  then show "patternOrAdditional E schema c pp r k = testAdditionalProperty E schema c k r"
    by (simp add: patternOrAdditional_def)
qed


section \<open>The detection of mutually exclusive dependencies\<close>

subsection \<open>Stripping the first not\<close>



















subsection \<open>Hoisting, on the members of the schema\<close>



lemma member_keys: "List.member (map fst kvs) k \<longleftrightarrow> map_of kvs k \<noteq> None"
  by (simp add: map_of_eq_None_iff)




subsection \<open>Structural identity\<close>




















section \<open>oneOf with mutually exclusive dependencies\<close>

lemma showNat_one: "showNat (Suc 0) = ''1''"
  by code_simp

lemma exclusive_labels:
  assumes "b1 \<noteq> JNull" "b1 \<noteq> JUndefined" "b2 \<noteq> JNull" "b2 \<noteq> JUndefined"
  shows "genericErrorMessage [b1, b2]
           = Inr (''is not exactly one from '' @ memberLabel b1 ''[subschema 0]''
                    @ '','' @ memberLabel b2 ''[subschema 1]'')"
  using assms
  by (simp add: genericErrorMessage_def schemaLabel_eq showNat_zero showNat_one)

lemma detection_defined:
  assumes "hasMutuallyExclusiveDependencies [b1, b2] = Inr True"
  shows "b1 \<noteq> JNull \<and> b1 \<noteq> JUndefined \<and> b2 \<noteq> JNull \<and> b2 \<noteq> JUndefined"
proof -
  have 1: "b1 \<noteq> JNull \<and> b1 \<noteq> JUndefined"
    using assms by (auto simp: hasMutuallyExclusiveDependencies_def bindE_def)
  then have g: "js_get b1 ''dependencies'' = Inr (js_prop b1 ''dependencies'')"
    by (simp add: js_get_defined)
  have "b2 \<noteq> JNull \<and> b2 \<noteq> JUndefined"
    using assms by (auto simp: hasMutuallyExclusiveDependencies_def bindE_def g split: if_splits)
  then show ?thesis using 1 by simp
qed

lemma exclusivePath_two:
  assumes "this_validateSchema E inst b1 c = Inr r1" "this_validateSchema E inst b2 c = Inr r2"
  shows "exclusivePath E inst c [b1, b2]
           = Inr (if recorded r2 then Some r2 else if recorded r1 then Some r1 else None,
                  (if valid r1 then 1 else 0) + (if valid r2 then 1 else 0))"
  using assms
  by (simp add: exclusivePath_def exclusive_step_def recorded_def valid_def)

text \<open>
  Claim C2, amended. For a \<open>oneOf\<close> of two branches that passes the detection, an instance
  other than \<open>undefined\<close> and results \<open>r1\<close>, \<open>r2\<close> of the orchestrator on the branches: a
  branch that fails with at least one error whose message contains "dependency" is
  neither counted as valid nor recorded; a branch that fails without such an error is
  recorded; the validator returns nothing when exactly one branch is valid, and otherwise
  the result of the last recorded branch, or the generic message when no branch is
  recorded.
\<close>

theorem exclusive_branches_outcome:
  assumes "inst \<noteq> JUndefined"
    and "js_get schema ''oneOf'' = Inr (JArr [b1, b2])"
    and "hasMutuallyExclusiveDependencies [b1, b2] = Inr True"
    and "this_validateSchema E inst b1 c = Inr r1"
    and "this_validateSchema E inst b2 c = Inr r2"
  shows "validateOneOf E inst schema c
           = Inr (exclusiveOutcome
                    (''is not exactly one from '' @ memberLabel b1 ''[subschema 0]''
                       @ '','' @ memberLabel b2 ''[subschema 1]'') r1 r2)"
proof -
  note d = detection_defined [OF assms(3)]
  have g: "genericErrorMessage [b1, b2]
           = Inr (''is not exactly one from '' @ memberLabel b1 ''[subschema 0]''
                    @ '','' @ memberLabel b2 ''[subschema 1]'')"
    using d by (simp add: exclusive_labels)
  have dec: "oneOf_decide E inst schema c [b1, b2]
           = Inr (if recorded r2 then Some r2 else if recorded r1 then Some r1 else None,
                  (if valid r1 then 1 else 0) + (if valid r2 then 1 else 0))"
    using assms(3) exclusivePath_two [OF assms(4,5)] by (simp add: oneOf_decide_def)
  show ?thesis
    using assms(1,2) by (simp add: validateOneOf_def g dec exclusiveOutcome_def)
qed



section \<open>oneOf without dependencies\<close>

text \<open>
  Claim C1, where the code departs from it. Let \<open>oneOf\<close> hold a single branch that
  declares no object-valued \<open>dependencies\<close>, and let the instance fail that branch with
  exactly one error. No branch validates, yet the validator returns \<open>null\<close>: having found
  \<open>validCount\<close> at zero, the second branch of \<open>validateOneOf\<close> sets it to the number of
  collected errors, which is one, and the final test \<open>validCount !== 1\<close> lets the
  instance pass.
\<close>

theorem oneOf_single_failing_branch_accepted:
  assumes "inst \<noteq> JUndefined"
    and "js_get schema ''oneOf'' = Inr (JArr [b])"
    and "js_get b ''dependencies'' = Inr d" and "\<not> typeof_object d"
    and "this_validateSchema E inst b c = Inr r"
    and "length (vr_errors r) = 1"
  shows "validateOneOf E inst schema c = Inr RNull"
proof -
  have nn: "b \<noteq> JNull" "b \<noteq> JUndefined" using assms(3) by auto
  have g: "genericErrorMessage [b]
             = Inr (''is not exactly one from '' @ memberLabel b ''[subschema 0]'')"
    using nn by (simp add: genericErrorMessage_def schemaLabel_eq showNat_zero)
  have me: "hasMutuallyExclusiveDependencies [b] = Inr False"
    by (simp add: hasMutuallyExclusiveDependencies_def)
  have nd: "hasNoDependencies [b] = Inr True"
    using assms(3,4) by (simp add: hasNoDependencies_def)
  have nv: "\<not> valid r" using assms(6) by (auto simp: valid_def)
  have pp: "plainPath E inst schema c [b]
              = Inr (Some \<lparr>vr_errors = vr_errors r, vr_instance = inst, vr_schema = schema,
                            vr_propertyPath = propertyPath c\<rparr>, 1)"
    using assms(5,6) nv by (simp add: plainPath_def validateSchema_def Let_def)
  have "oneOf_decide E inst schema c [b]
          = Inr (Some \<lparr>vr_errors = vr_errors r, vr_instance = inst, vr_schema = schema,
                        vr_propertyPath = propertyPath c\<rparr>, 1)"
    by (simp add: oneOf_decide_def me nd pp)
  then show ?thesis
    using assms(1,2) by (simp add: validateOneOf_def g)
qed



section \<open>The detection writes to the copies only\<close>

lemma aboveVal_mono: "aboveVal L n v \<Longrightarrow> n \<le> m \<Longrightarrow> aboveVal L m v"
  by (cases v) auto

lemma h_get_above:
  assumes "closedAbove L h" "aboveVal L (length h) v" "h_get h v k = Inr x"
  shows "aboveVal L (length h) x"
proof (cases v)
  case (HRef a)
  then have a: "L \<le> a" "a < length h" using assms(2) by auto
  then have m: "\<forall>w\<in>set (membersOf (h ! a)). aboveVal L (length h) w"
    using assms(1) by (simp add: closedAbove_def)
  show ?thesis
  proof (cases "h ! a")
    case (HObject kvs)
    show ?thesis
    proof (cases "map_of kvs k")
      case None
      then show ?thesis using assms(3) HRef a HObject by (auto simp: h_get_def)
    next
      case (Some w)
      then have "w \<in> set (map snd kvs)"
        by (metis map_of_SomeD image_eqI set_map snd_conv)
      then show ?thesis using assms(3) HRef a HObject Some m by (auto simp: h_get_def)
    qed
  next
    case (HArray xs)
    then show ?thesis
      using assms(3) HRef a m
      by (auto simp: h_get_def split: if_splits option.splits)
  qed
next
  case (HStr s)
  then show ?thesis using assms(3) by (auto simp: h_get_def split: if_splits option.splits)
qed (use assms(3) in \<open>auto simp: h_get_def\<close>)

lemma h_alist_set_members:
  "(k', w) \<in> set (h_alist_set kvs k v) \<Longrightarrow> w = v \<or> w \<in> snd ` set kvs"
proof (induction kvs)
  case Nil
  then show ?case by simp
next
  case (Cons kv kvs)
  then show ?case by (cases kv) (force split: if_splits)
qed

lemma closedAbove_update:
  assumes "closedAbove L h" "a < length h"
    and "\<forall>v\<in>set (membersOf ob). aboveVal L (length h) v"
  shows "closedAbove L (h[a := ob])"
  using assms by (auto simp: closedAbove_def nth_list_update)

lemma h_set_frame:
  assumes "closedAbove L h" "L \<le> a" "a < length h" "aboveVal L (length h) v"
  shows "length (h_set h a k v) = length h \<and> take L (h_set h a k v) = take L h
           \<and> closedAbove L (h_set h a k v)"
proof (cases "h ! a")
  case (HObject kvs)
  have m: "\<forall>w\<in>set (map snd kvs). aboveVal L (length h) w"
    using assms(1,2,3) HObject by (auto simp: closedAbove_def)
  have "\<forall>w\<in>set (membersOf (HObject (h_alist_set kvs k v))). aboveVal L (length h) w"
    using h_alist_set_members [of _ _ kvs k v] m assms(4) by fastforce
  then have "closedAbove L (h[a := HObject (h_alist_set kvs k v)])"
    using closedAbove_update [OF assms(1,3)] by blast
  then show ?thesis using assms(2,3) HObject by (simp add: h_set_def)
next
  case (HArray xs)
  then show ?thesis using assms(1,3) by (simp add: h_set_def)
qed

lemma h_delete_frame:
  assumes "closedAbove L h" "L \<le> a" "a < length h"
  shows "length (h_delete h a k) = length h \<and> take L (h_delete h a k) = take L h
           \<and> closedAbove L (h_delete h a k)"
proof (cases "h ! a")
  case (HObject kvs)
  have m: "\<forall>w\<in>set (map snd kvs). aboveVal L (length h) w"
    using assms HObject by (auto simp: closedAbove_def)
  have "\<forall>w\<in>set (membersOf (HObject (filter (\<lambda>kv. fst kv \<noteq> k) kvs))). aboveVal L (length h) w"
    using m by auto
  then have "closedAbove L (h[a := HObject (filter (\<lambda>kv. fst kv \<noteq> k) kvs)])"
    using closedAbove_update [OF assms(1,3)] by blast
  then show ?thesis using assms(2,3) HObject by (simp add: h_delete_def)
next
  case (HArray xs)
  then show ?thesis using assms(1,3) by (simp add: h_delete_def)
qed

lemma hoist_h_frame:
  assumes "closedAbove L h" "L \<le> a" "a < length h" "hoist_h ps a h = (r, h')"
  shows "length h' = length h \<and> take L h' = take L h \<and> closedAbove L h'"
  using assms
proof (induction ps arbitrary: h)
  case Nil
  then show ?case by simp
next
  case (Cons p ps)
  show ?case
  proof (cases "h_get h (HRef a) ''not''")
    case (Inl e)
    then show ?thesis using Cons.prems by simp
  next
    case (Inr nv)
    have av: "aboveVal L (length h) (HRef a)" using Cons.prems(2,3) by simp
    have nva: "aboveVal L (length h) nv"
      using h_get_above [OF Cons.prems(1) av Inr] .
    show ?thesis
    proof (cases "h_get h nv p")
      case (Inl e)
      then show ?thesis using Cons.prems Inr by simp
    next
      case (Inr v)
      have va: "aboveVal L (length h) v"
        using h_get_above [OF Cons.prems(1) nva Inr] .
      note f = h_set_frame [OF Cons.prems(1,2,3) va, of p]
      have rest: "hoist_h ps a (h_set h a p v) = (r, h')"
        using Cons.prems(4) \<open>h_get h (HRef a) ''not'' = Inr nv\<close> Inr by simp
      have "length h' = length (h_set h a p v) \<and> take L h' = take L (h_set h a p v)
              \<and> closedAbove L h'"
        using Cons.IH [OF _ Cons.prems(2) _ rest] f Cons.prems(3) by simp
      then show ?thesis using f by simp
    qed
  qed
qed


lemma someKeys_h_frame:
  assumes f: "\<And>h v r h'. closedAbove L h \<Longrightarrow> aboveVal L (length h) v \<Longrightarrow> f h v = (r, h')
              \<Longrightarrow> length h' = length h \<and> take L h' = take L h \<and> closedAbove L h'"
    and "closedAbove L h" "L \<le> a" "a < length h" "someKeys_h f a ks h = (r, h')"
  shows "length h' = length h \<and> take L h' = take L h \<and> closedAbove L h'"
  using assms(2-)
proof (induction ks arbitrary: h)
  case Nil
  then show ?case by simp
next
  case (Cons k ks)
  show ?case
  proof (cases "h_get h (HRef a) k")
    case (Inl e)
    then show ?thesis using Cons.prems by simp
  next
    case (Inr child)
    have av: "aboveVal L (length h) (HRef a)" using Cons.prems(2,3) by simp
    have ca: "aboveVal L (length h) child"
      using h_get_above [OF Cons.prems(1) av Inr] .
    obtain r1 h1 where fr: "f h child = (r1, h1)" by (cases "f h child")
    note s1 = f [OF Cons.prems(1) ca fr]
    show ?thesis
    proof (cases r1)
      case (Inl e)
      then show ?thesis using Cons.prems(4) Inr fr s1 by simp
    next
      case (Inr b)
      show ?thesis
      proof (cases b)
        case True
        then show ?thesis using Cons.prems(4) \<open>h_get h (HRef a) k = Inr child\<close> fr Inr s1 by simp
      next
        case False
        then have rest: "someKeys_h f a ks h1 = (r, h')"
          using Cons.prems(4) \<open>h_get h (HRef a) k = Inr child\<close> fr Inr by simp
        have "length h' = length h1 \<and> take L h' = take L h1 \<and> closedAbove L h'"
          using Cons.IH [OF _ Cons.prems(2) _ rest] s1 Cons.prems(3) by simp
        then show ?thesis using s1 by simp
      qed
    qed
  qed
qed

lemma removeNot_h_frame:
  assumes "closedAbove L h" "aboveVal L (length h) v" "removeNot_h n h v = (r, h')"
  shows "length h' = length h \<and> take L h' = take L h \<and> closedAbove L h'"
  using assms
proof (induction n arbitrary: h v r h')
  case 0
  then show ?case by (cases v) auto
next
  case (Suc n)
  show ?case
  proof (cases v)
    case (HRef a)
    then have a: "L \<le> a" "a < length h" using Suc.prems(2) by auto
    show ?thesis
    proof (cases "h_hasOwn h a ''not''")
      case True
      show ?thesis
      proof (cases "h_get h (HRef a) ''not''")
        case (Inl e)
        then show ?thesis using Suc.prems HRef True by simp
      next
        case (Inr nv)
        show ?thesis
        proof (cases "h_keys h nv")
          case (Inl e)
          then show ?thesis using Suc.prems HRef True Inr by simp
        next
          case (Inr ps)
          obtain r1 h1 where hr: "hoist_h ps a h = (r1, h1)" by (cases "hoist_h ps a h")
          note s1 = hoist_h_frame [OF Suc.prems(1) a hr]
          show ?thesis
          proof (cases r1)
            case (Inl e)
            then show ?thesis
              using Suc.prems(3) HRef True \<open>h_get h (HRef a) ''not'' = Inr nv\<close> Inr hr s1 by simp
          next
            case (Inr u)
            have h': "h' = h_delete h1 a ''not''"
              using Suc.prems(3) HRef True \<open>h_get h (HRef a) ''not'' = Inr nv\<close>
                \<open>h_keys h nv = Inr ps\<close> hr Inr by simp
            have "length (h_delete h1 a ''not'') = length h1
                  \<and> take L (h_delete h1 a ''not'') = take L h1
                  \<and> closedAbove L (h_delete h1 a ''not'')"
              using h_delete_frame [of L h1 a "''not''"] s1 a by simp
            then show ?thesis using h' s1 by simp
          qed
        qed
      qed
    next
      case False
      show ?thesis
      proof (cases "h_keys h (HRef a)")
        case (Inl e)
        then show ?thesis using Suc.prems HRef False by simp
      next
        case (Inr ks)
        then have sk: "someKeys_h (\<lambda>h' v'. removeNot_h n h' v') a ks h = (r, h')"
          using Suc.prems(3) HRef False by simp
        show ?thesis
          by (rule someKeys_h_frame [OF _ Suc.prems(1) a sk]) (rule Suc.IH)
      qed
    qed
  qed (use Suc.prems in auto)
qed


lemma take_chain:
  assumes "length h \<le> length h1" "take (length h) h1 = h" "take (length h1) h2 = h1"
  shows "take (length h) h2 = h"
proof -
  have "take (length h) h2 = take (length h) (take (length h1) h2)"
    using assms(1) by (simp add: min_def)
  then show ?thesis using assms(2,3) by simp
qed

lemma closedAbove_append:
  assumes "closedAbove L h" "\<forall>v\<in>set (membersOf ob). aboveVal L (length h) v"
  shows "closedAbove L (h @ [ob])"
  unfolding closedAbove_def
proof (intro allI impI ballI)
  fix a v
  assume a: "L \<le> a \<and> a < length (h @ [ob])" and v: "v \<in> set (membersOf ((h @ [ob]) ! a))"
  show "aboveVal L (length (h @ [ob])) v"
  proof (cases "a < length h")
    case True
    then have "aboveVal L (length h) v"
      using assms(1) a v by (auto simp: closedAbove_def nth_append)
    then show ?thesis by (rule aboveVal_mono) simp
  next
    case False
    then have "a = length h" using a by simp
    then have "aboveVal L (length h) v" using assms(2) v by simp
    then show ?thesis by (rule aboveVal_mono) simp
  qed
qed

lemma cloneList_h_frame:
  assumes f: "\<And>h v r h'. L \<le> length h \<Longrightarrow> closedAbove L h \<Longrightarrow> f h v = (r, h')
              \<Longrightarrow> length h \<le> length h' \<and> take (length h) h' = h \<and> closedAbove L h'
                  \<and> (\<forall>v'. r = Inr v' \<longrightarrow> aboveVal L (length h') v')"
    and "L \<le> length h" "closedAbove L h" "cloneList_h f vs h = (r, h')"
  shows "length h \<le> length h' \<and> take (length h) h' = h \<and> closedAbove L h'
           \<and> (\<forall>vs'. r = Inr vs' \<longrightarrow> (\<forall>w\<in>set vs'. aboveVal L (length h') w))"
  using assms(2-)
proof (induction vs arbitrary: h r h')
  case Nil
  then show ?case by auto
next
  case (Cons v vs)
  obtain r1 h1 where fr: "f h v = (r1, h1)" by (cases "f h v")
  note s1 = f [OF Cons.prems(1,2) fr]
  show ?case
  proof (cases r1)
    case (Inl e)
    then show ?thesis using Cons.prems(3) fr s1 by auto
  next
    case (Inr v')
    obtain r2 h2 where cr: "cloneList_h f vs h1 = (r2, h2)" by (cases "cloneList_h f vs h1")
    have L1: "L \<le> length h1" using Cons.prems(1) s1 by simp
    have c1: "closedAbove L h1" using s1 by simp
    note s2 = Cons.IH [OF L1 c1 cr]
    have tk: "take (length h) h2 = h"
      using take_chain [of h h1 h2] s1 s2 by simp
    have v'a: "aboveVal L (length h2) v'"
      using s1 s2 Inr aboveVal_mono by blast
    show ?thesis
    proof (cases r2)
      case (Inl e)
      then show ?thesis using Cons.prems(3) fr Inr cr s1 s2 tk by auto
    next
      case (Inr vs')
      then have "r = Inr (v' # vs')" "h' = h2"
        using Cons.prems(3) fr \<open>r1 = Inr v'\<close> cr by auto
      then show ?thesis using s1 s2 tk v'a Inr by auto
    qed
  qed
qed

lemma cloneDeep_h_frame:
  assumes "L \<le> length h" "closedAbove L h" "cloneDeep_h n h v = (r, h')"
  shows "length h \<le> length h' \<and> take (length h) h' = h \<and> closedAbove L h'
           \<and> (\<forall>v'. r = Inr v' \<longrightarrow> aboveVal L (length h') v')"
  using assms
proof (induction n arbitrary: h v r h')
  case 0
  then show ?case by (cases v) auto
next
  case (Suc n)
  show ?case
  proof (cases v)
    case (HRef a)
    show ?thesis
    proof (cases "a < length h")
      case False
      then show ?thesis using Suc.prems HRef by auto
    next
      case True
      let ?f = "\<lambda>h' v'. cloneDeep_h n h' v'"
      show ?thesis
      proof (cases "h ! a")
        case (HObject kvs)
        obtain r1 h1 where cl: "cloneList_h ?f (map snd kvs) h = (r1, h1)"
          by (cases "cloneList_h ?f (map snd kvs) h")
        have s1: "length h \<le> length h1 \<and> take (length h) h1 = h \<and> closedAbove L h1
           \<and> (\<forall>vs'. r1 = Inr vs' \<longrightarrow> (\<forall>w\<in>set vs'. aboveVal L (length h1) w))"
          by (rule cloneList_h_frame [OF _ Suc.prems(1,2) cl]) (rule Suc.IH)
        show ?thesis
        proof (cases r1)
          case (Inl e)
          then show ?thesis using Suc.prems(3) HRef True HObject cl s1 by auto
        next
          case (Inr vs)
          then have res: "r = Inr (HRef (length h1))"
              "h' = h1 @ [HObject (zip (map fst kvs) vs)]"
            using Suc.prems(3) HRef True HObject cl by auto
          have mem: "\<forall>w\<in>set (membersOf (HObject (zip (map fst kvs) vs))). aboveVal L (length h1) w"
            using s1 Inr by (auto dest: set_zip_rightD)
          have "closedAbove L h'"
            unfolding res(2) using closedAbove_append s1 mem by blast
          moreover have "take (length h) h' = h" using res(2) s1 by simp
          moreover have "L \<le> length h1" using Suc.prems(1) s1 by simp
          ultimately show ?thesis using res s1 by auto
        qed
      next
        case (HArray xs)
        obtain r1 h1 where cl: "cloneList_h ?f xs h = (r1, h1)"
          by (cases "cloneList_h ?f xs h")
        have s1: "length h \<le> length h1 \<and> take (length h) h1 = h \<and> closedAbove L h1
           \<and> (\<forall>vs'. r1 = Inr vs' \<longrightarrow> (\<forall>w\<in>set vs'. aboveVal L (length h1) w))"
          by (rule cloneList_h_frame [OF _ Suc.prems(1,2) cl]) (rule Suc.IH)
        show ?thesis
        proof (cases r1)
          case (Inl e)
          then show ?thesis using Suc.prems(3) HRef True HArray cl s1 by auto
        next
          case (Inr vs)
          then have res: "r = Inr (HRef (length h1))" "h' = h1 @ [HArray vs]"
            using Suc.prems(3) HRef True HArray cl by auto
          have mem: "\<forall>w\<in>set (membersOf (HArray vs)). aboveVal L (length h1) w"
            using s1 Inr by auto
          have "closedAbove L h'"
            unfolding res(2) using closedAbove_append s1 mem by blast
          moreover have "take (length h) h' = h" using res(2) s1 by simp
          moreover have "L \<le> length h1" using Suc.prems(1) s1 by simp
          ultimately show ?thesis using res s1 by auto
        qed
      qed
    qed
  qed (use Suc.prems in auto)
qed


lemma take_prefix: "L \<le> length h \<Longrightarrow> take (length h) h' = h \<Longrightarrow> take L h' = take L h"
  by (metis min.absorb2 take_take min.commute)

lemma areSubschemasMutuallyExclusive_h_frame:
  assumes "L \<le> length h" "closedAbove L h"
    and "areSubschemasMutuallyExclusive_h n d1 d2 h k = (r, h')"
  shows "length h \<le> length h' \<and> take L h' = take L h \<and> closedAbove L h'"
proof (cases "h_get h d2 k")
  case (Inl e)
  then show ?thesis using assms by (simp add: areSubschemasMutuallyExclusive_h_def)
next
  case v2: (Inr v2)
  show ?thesis
  proof (cases "h_truthy v2")
    case False
    then show ?thesis using assms v2 by (simp add: areSubschemasMutuallyExclusive_h_def)
  next
    case t: True
    show ?thesis
    proof (cases "h_get h d1 k")
      case (Inl e)
      then show ?thesis using assms v2 t by (simp add: areSubschemasMutuallyExclusive_h_def)
    next
      case v1: (Inr v1)
      obtain c1 h1 where k1: "cloneDeep_h n h v1 = (c1, h1)" by (cases "cloneDeep_h n h v1")
      note f1 = cloneDeep_h_frame [OF assms(1,2) k1]
      have p1: "L \<le> length h1" "take L h1 = take L h" "closedAbove L h1"
        using f1 assms(1) take_prefix by auto
      show ?thesis
      proof (cases c1)
        case (Inl e)
        then show ?thesis
          using assms(3) v2 t v1 k1 f1 p1
          by (simp add: areSubschemasMutuallyExclusive_h_def)
      next
        case s1: (Inr s1)
        obtain c2 h2 where k2: "cloneDeep_h n h1 v2 = (c2, h2)" by (cases "cloneDeep_h n h1 v2")
        note f2 = cloneDeep_h_frame [OF p1(1,3) k2]
        have p2: "L \<le> length h2" "take L h2 = take L h" "closedAbove L h2" "length h \<le> length h2"
          using f2 p1 f1 take_prefix [of L h1 h2] by auto
        show ?thesis
        proof (cases c2)
          case (Inl e)
          then show ?thesis
            using assms(3) v2 t v1 k1 s1 k2 p2
            by (simp add: areSubschemasMutuallyExclusive_h_def)
        next
          case s2: (Inr s2)
          have a1: "aboveVal L (length h2) s1"
            using f1 s1 f2 aboveVal_mono by blast
          have a2: "aboveVal L (length h2) s2" using f2 s2 by blast
          obtain b1 h3 where k3: "removeNot_h n h2 s1 = (b1, h3)" by (cases "removeNot_h n h2 s1")
          note f3 = removeNot_h_frame [OF p2(3) a1 k3]
          show ?thesis
          proof (cases b1)
            case (Inl e)
            then show ?thesis
              using assms(3) v2 t v1 k1 s1 k2 s2 k3 f3 p2
              by (simp add: areSubschemasMutuallyExclusive_h_def)
          next
            case n1: (Inr n1)
            have a2': "aboveVal L (length h3) s2" using a2 f3 by simp
            obtain b2 h4 where k4: "removeNot_h n h3 s2 = (b2, h4)"
              by (cases "removeNot_h n h3 s2")
            have c3: "closedAbove L h3" using f3 by simp
            note f4 = removeNot_h_frame [OF c3 a2' k4]
            have fin: "length h \<le> length h4 \<and> take L h4 = take L h \<and> closedAbove L h4"
              using f4 f3 p2 by simp
            have "h' = h4"
              using assms(3) v2 t v1 k1 s1 k2 s2 k3 n1 k4
              by (auto simp: areSubschemasMutuallyExclusive_h_def split: sum.splits if_splits)
            then show ?thesis using fin by simp
          qed
        qed
      qed
    qed
  qed
qed

lemma every_h_frame:
  assumes f: "\<And>h k r h'. L \<le> length h \<Longrightarrow> closedAbove L h \<Longrightarrow> f h k = (r, h')
              \<Longrightarrow> length h \<le> length h' \<and> take L h' = take L h \<and> closedAbove L h'"
    and "L \<le> length h" "closedAbove L h" "every_h f ks h = (r, h')"
  shows "length h \<le> length h' \<and> take L h' = take L h \<and> closedAbove L h'"
  using assms(2-)
proof (induction ks arbitrary: h)
  case Nil
  then show ?case by simp
next
  case (Cons k ks)
  obtain r1 h1 where fr: "f h k = (r1, h1)" by (cases "f h k")
  note s1 = f [OF Cons.prems(1,2) fr]
  show ?case
  proof (cases r1)
    case (Inl e)
    then show ?thesis using Cons.prems(3) fr s1 by simp
  next
    case (Inr b)
    show ?thesis
    proof (cases b)
      case False
      then show ?thesis using Cons.prems(3) fr Inr s1 by simp
    next
      case True
      then have rest: "every_h f ks h1 = (r, h')" using Cons.prems(3) fr Inr by simp
      have "length h1 \<le> length h' \<and> take L h' = take L h1 \<and> closedAbove L h'"
        using Cons.IH [OF _ _ rest] s1 Cons.prems(1) by simp
      then show ?thesis using s1 by simp
    qed
  qed
qed

lemma closedAbove_top: "closedAbove (length h) h"
  by (auto simp: closedAbove_def)

lemma detection_frame:
  assumes "hasMutuallyExclusiveDependencies_h n h oneOf = (r, h')"
  shows "length h \<le> length h' \<and> take (length h) h' = h"
proof -
  have "length h \<le> length h' \<and> take (length h) h' = take (length h) h
          \<and> closedAbove (length h) h'"
  proof (cases "\<exists>d1 d2 names. h_get h (oneOf ! 0) ''dependencies'' = Inr d1
           \<and> h_get h (oneOf ! 1) ''dependencies'' = Inr d2 \<and> h_keys h d1 = Inr names
           \<and> length oneOf = 2 \<and> h_truthy d1 \<and> h_truthy d2")
    case False
    then have "h' = h"
      using assms
      by (auto simp: hasMutuallyExclusiveDependencies_h_def split: sum.splits if_splits)
    then show ?thesis by (simp add: closedAbove_top)
  next
    case True
    then obtain d1 d2 names where
      d: "h_get h (oneOf ! 0) ''dependencies'' = Inr d1"
         "h_get h (oneOf ! 1) ''dependencies'' = Inr d2" "h_keys h d1 = Inr names"
         "length oneOf = 2" "h_truthy d1" "h_truthy d2"
      by blast
    have ev: "every_h (areSubschemasMutuallyExclusive_h n d1 d2) names h = (r, h')"
      using assms d by (simp add: hasMutuallyExclusiveDependencies_h_def)
    show ?thesis
      by (rule every_h_frame [OF _ order_refl closedAbove_top ev])
         (rule areSubschemasMutuallyExclusive_h_frame)
  qed
  then show ?thesis by simp
qed

lemma those_map_cong:
  "(\<And>x. x \<in> set xs \<Longrightarrow> f x = g x) \<Longrightarrow> those (map f xs) = those (map g xs)"
  by (induction xs) (auto split: option.splits)

lemma reify_prefix:
  assumes "closedAbove 0 h" "length h \<le> length h'" "take (length h) h' = h"
    and "aboveVal 0 (length h) v"
  shows "reify m h' v = reify m h v"
  using assms(4)
proof (induction m arbitrary: v)
  case 0
  then show ?case by (cases v) auto
next
  case (Suc m)
  show ?case
  proof (cases v)
    case (HRef a)
    then have a: "a < length h" using Suc.prems by simp
    then have a': "a < length h'" using assms(2) by simp
    have same: "h' ! a = h ! a"
      using a assms(3) by (metis nth_take)
    have mem: "\<forall>w\<in>set (membersOf (h ! a)). aboveVal 0 (length h) w"
      using assms(1) a by (simp add: closedAbove_def)
    show ?thesis
    proof (cases "h ! a")
      case (HObject kvs)
      have "those (map (\<lambda>kv. map_option (Pair (fst kv)) (reify m h' (snd kv))) kvs)
              = those (map (\<lambda>kv. map_option (Pair (fst kv)) (reify m h (snd kv))) kvs)"
        by (rule those_map_cong) (use mem HObject Suc.IH in auto)
      then show ?thesis using HRef a a' same HObject by simp
    next
      case (HArray xs)
      have "those (map (\<lambda>x. reify m h' x) xs) = those (map (\<lambda>x. reify m h x) xs)"
        by (rule those_map_cong) (use mem HArray Suc.IH in auto)
      then show ?thesis using HRef a a' same HArray by simp
    qed
  qed auto
qed

text \<open>
  Claim C9. Whatever the store, the branches and the outcome (a verdict or an exception),
  the detection leaves every object that existed before it as it was: the store it
  returns extends the given one by the copies, and all the writes of \<open>removeNot\<close> fall on
  the copies. In a well-formed store, every value of the old store therefore stands for
  the same tree after the detection as before.
\<close>

theorem detection_leaves_schema_unchanged:
  assumes "hasMutuallyExclusiveDependencies_h n h oneOf = (r, h')"
  shows "length h \<le> length h' \<and> take (length h) h' = h
         \<and> (\<forall>a<length h. h' ! a = h ! a)
         \<and> (closedAbove 0 h
              \<longrightarrow> (\<forall>m v. aboveVal 0 (length h) v \<longrightarrow> reify m h' v = reify m h v))"
proof -
  note f = detection_frame [OF assms]
  have "\<forall>a<length h. h' ! a = h ! a"
    using f by (metis nth_take)
  moreover have "closedAbove 0 h
      \<longrightarrow> (\<forall>m v. aboveVal 0 (length h) v \<longrightarrow> reify m h' v = reify m h v)"
    using f reify_prefix by blast
  ultimately show ?thesis using f by blast
qed



section \<open>Instances of the theorems\<close>

theorem absence_is_neutral_witness:
  "js_get (JObj [(''enum'', JArr [JStr ''foo'', JStr ''bar''])]) ''enum''
     = Inr (JArr [JStr ''foo'', JStr ''bar''])
   \<and> contributed []
        (validateEnum (validatorEnv 1) JUndefined (JObj [(''enum'', JArr [JStr ''foo'', JStr ''bar''])]))
     = Inr []"
  using absence_is_neutral [of "[]" "validatorEnv 1"
      "JObj [(''enum'', JArr [JStr ''foo'', JStr ''bar''])]" "\<lparr>propertyPath = []\<rparr>"
      "[JStr ''foo'', JStr ''bar'']"]
  by simp

theorem malformed_schema_raises_witness:
  "validateEnum (validatorEnv 1) (JNum 3) (JObj [(''enum'', JStr ''a''), (''anyOf'', JNum 1),
       (''allOf'', JObj []), (''oneOf'', JNull), (''divisibleBy'', JNum 0), (''multipleOf'', JNum 0)])
     = Inl (SchemaError ''enum expects an array'')
   \<and> validateAnyOf (validatorEnv 1) (JNum 3) (JObj [(''enum'', JStr ''a''), (''anyOf'', JNum 1),
       (''allOf'', JObj []), (''oneOf'', JNull), (''divisibleBy'', JNum 0), (''multipleOf'', JNum 0)])
       \<lparr>propertyPath = []\<rparr>
     = Inl (SchemaError ''anyOf must be an array'')
   \<and> validateAllOf (validatorEnv 1) (JNum 3) (JObj [(''enum'', JStr ''a''), (''anyOf'', JNum 1),
       (''allOf'', JObj []), (''oneOf'', JNull), (''divisibleBy'', JNum 0), (''multipleOf'', JNum 0)])
       \<lparr>propertyPath = []\<rparr>
     = Inl (SchemaError ''allOf must be an array'')
   \<and> validateOneOf (validatorEnv 1) (JNum 3) (JObj [(''enum'', JStr ''a''), (''anyOf'', JNum 1),
       (''allOf'', JObj []), (''oneOf'', JNull), (''divisibleBy'', JNum 0), (''multipleOf'', JNum 0)])
       \<lparr>propertyPath = []\<rparr>
     = Inl (SchemaError ''oneOf must be an array'')
   \<and> validateDivisibleBy (validatorEnv 1) (JNum 3) (JObj [(''enum'', JStr ''a''), (''anyOf'', JNum 1),
       (''allOf'', JObj []), (''oneOf'', JNull), (''divisibleBy'', JNum 0), (''multipleOf'', JNum 0)])
     = Inl (SchemaError ''divisibleBy cannot be zero'')
   \<and> validateMultipleOf (validatorEnv 1) (JNum 3) (JObj [(''enum'', JStr ''a''), (''anyOf'', JNum 1),
       (''allOf'', JObj []), (''oneOf'', JNull), (''divisibleBy'', JNum 0), (''multipleOf'', JNum 0)])
     = Inl (SchemaError ''multipleOf cannot be zero'')"
  using malformed_schema_raises [of
      "JObj [(''enum'', JStr ''a''), (''anyOf'', JNum 1),
       (''allOf'', JObj []), (''oneOf'', JNull), (''divisibleBy'', JNum 0), (''multipleOf'', JNum 0)]"
      "JStr ''a''" "validatorEnv 1" "JNum 3" "JNum 1" "\<lparr>propertyPath = []\<rparr>"
      "JObj []" "JNull" "JNum 0" 3 "JNum 0"]
  by simp

theorem uniqueItems_definitions_agree_witness:
  "contributed [] (validateUniqueItems (validatorEnv 1)
       (JArr [JObj [(''a'', JNum 1)], JObj [(''a'', JNum 1)]]))
     = Inr [\<lparr>message = ''contains duplicate item'', property = JStr []\<rparr>]
   \<and> contributed [] (validateUniqueItems_first (validatorEnv 1)
       (JArr [JObj [(''a'', JNum 1)], JObj [(''a'', JNum 1)]]) (JObj [(''uniqueItems'', JBool True)])
       \<lparr>propertyPath = []\<rparr>)
     = Inr [\<lparr>message = ''contains duplicate item'', property = JStr []\<rparr>]"
  using uniqueItems_definitions_agree [of "\<lparr>propertyPath = []\<rparr>" "validatorEnv 1"
      "JArr [JObj [(''a'', JNum 1)], JObj [(''a'', JNum 1)]]" "JObj [(''uniqueItems'', JBool True)]"]
  by (simp add: hasDuplicate_def upt_rec)

theorem allOf_wraps_failing_members_witness:
  "validateAllOf (validatorEnv 2) (JStr ''b'')
      (JObj [(''allOf'', JArr [JObj [(''minLength'', JNum 1)],
                               JObj [(''title'', JStr ''letter a''), (''enum'', JArr [JStr ''a''])]])])
      \<lparr>propertyPath = []\<rparr>
   = Inr (RResult \<lparr>vr_errors =
        [\<lparr>message = ''does not match allOf schema '' @ [CHR 0x22] @ ''letter a'' @ [CHR 0x22]
                       @ '' with 1 error[s]:'',
           property = JStr []\<rparr>,
         \<lparr>message = ''is not one of enum values: a'', property = JStr []\<rparr>],
        vr_instance = JStr ''b'',
        vr_schema = JObj [(''allOf'', JArr [JObj [(''minLength'', JNum 1)],
                               JObj [(''title'', JStr ''letter a''), (''enum'', JArr [JStr ''a''])]])],
        vr_propertyPath = []\<rparr>)"
  using allOf_wraps_failing_members [of "JStr ''b''"
      "JObj [(''allOf'', JArr [JObj [(''minLength'', JNum 1)],
                               JObj [(''title'', JStr ''letter a''), (''enum'', JArr [JStr ''a''])]])]"
      "[JObj [(''minLength'', JNum 1)], JObj [(''title'', JStr ''letter a''), (''enum'', JArr [JStr ''a''])]]"
      "validatorEnv 2" "\<lparr>propertyPath = []\<rparr>"
      "\<lambda>m. case this_validateSchema (validatorEnv 2) (JStr ''b'') m \<lparr>propertyPath = []\<rparr> of
             Inr r \<Rightarrow> r | Inl e \<Rightarrow> ValidatorResult JUndefined JUndefined \<lparr>propertyPath = []\<rparr>"]
  by code_simp

theorem additionalItems_false_stops_scan_witness:
  "contributed []
     (validateItems (validatorEnv 2) (JArr [JStr ''b'', JStr ''x'', JStr ''y''])
        (JObj [(''items'', JArr [JObj [(''enum'', JArr [JStr ''a''])]]),
               (''additionalItems'', JBool False)])
        \<lparr>propertyPath = []\<rparr>)
   = Inr [\<lparr>message = ''is not one of enum values: a'', property = JStr ''[0]''\<rparr>,
          \<lparr>message = ''additionalItems not permitted'', property = JStr []\<rparr>]"
proof -
  have "\<exists>r. validateItems (validatorEnv 2) (JArr [JStr ''b'', JStr ''x'', JStr ''y''])
        (JObj [(''items'', JArr [JObj [(''enum'', JArr [JStr ''a''])]]),
               (''additionalItems'', JBool False)])
        \<lparr>propertyPath = []\<rparr> = Inr (RResult r)
      \<and> vr_errors r = concat (map (\<lambda>i. vr_errors
            (case this_validateSchema (validatorEnv 2) ([JStr ''b'', JStr ''x'', JStr ''y''] ! i)
                    ([JObj [(''enum'', JArr [JStr ''a''])]] ! i)
                    (makeChild \<lparr>propertyPath = []\<rparr> ([JObj [(''enum'', JArr [JStr ''a''])]] ! i) (JNum (int i))) of
               Inr r \<Rightarrow> r | Inl e \<Rightarrow> ValidatorResult JUndefined JUndefined \<lparr>propertyPath = []\<rparr>))
            [0..<length [JObj [(''enum'', JArr [JStr ''a''])]]])
          @ [\<lparr>message = ''additionalItems not permitted'',
                      property = JStr (propertyPath \<lparr>propertyPath = []\<rparr>)\<rparr>]"
    by (rule additionalItems_false_stops_scan) (code_simp+)
  then obtain r where r: "validateItems (validatorEnv 2) (JArr [JStr ''b'', JStr ''x'', JStr ''y''])
        (JObj [(''items'', JArr [JObj [(''enum'', JArr [JStr ''a''])]]),
               (''additionalItems'', JBool False)])
        \<lparr>propertyPath = []\<rparr> = Inr (RResult r)"
     and e: "vr_errors r = concat (map (\<lambda>i. vr_errors
            (case this_validateSchema (validatorEnv 2) ([JStr ''b'', JStr ''x'', JStr ''y''] ! i)
                    ([JObj [(''enum'', JArr [JStr ''a''])]] ! i)
                    (makeChild \<lparr>propertyPath = []\<rparr> ([JObj [(''enum'', JArr [JStr ''a''])]] ! i) (JNum (int i))) of
               Inr r \<Rightarrow> r | Inl e \<Rightarrow> ValidatorResult JUndefined JUndefined \<lparr>propertyPath = []\<rparr>))
            [0..<length [JObj [(''enum'', JArr [JStr ''a''])]]])
          @ [\<lparr>message = ''additionalItems not permitted'',
                      property = JStr (propertyPath \<lparr>propertyPath = []\<rparr>)\<rparr>]"
    by blast
  have "vr_errors r = [\<lparr>message = ''is not one of enum values: a'', property = JStr ''[0]''\<rparr>,
          \<lparr>message = ''additionalItems not permitted'', property = JStr []\<rparr>]"
    unfolding e by code_simp
  then show ?thesis by (simp add: r)
qed

theorem patternProperties_take_over_additionalProperties_witness:
  "contributed []
     (validateAdditionalProperties (validatorEnv 2) (JObj patternInstance) patternSchema rootContext)
     = Inr []
   \<and> contributed []
     (validatePatternProperties (validatorEnv 2) (JObj patternInstance) patternSchema rootContext)
     = Inr [\<lparr>message = ''does not exist in the schema'', property = JStr ''y''\<rparr>]"
proof -
  let ?pp = "JObj [(''x'', JObj [(''enum'', JArr [JNum 1])])]"
  have p1: "js_get patternSchema ''patternProperties'' = Inr ?pp"
    by (simp add: patternSchema_def)
  have p2: "js_truthy ?pp" by simp
  have p3: "\<forall>k\<in>set (map fst patternInstance). \<forall>p\<in>set (forin_keys ?pp).
              \<exists>b. regExpTest (validatorEnv 2) (JStr p) k = Inr b"
    by (simp add: patternInstance_def numeral_2_eq_2 plainRegExpTest_def is_plain_char_def)
  note T = patternProperties_take_over_additionalProperties [OF p1 p2 p3,
      of "[]" "JObj patternInstance" rootContext]
  have c1: "contributed []
     (validateAdditionalProperties (validatorEnv 2) (JObj patternInstance) patternSchema rootContext)
     = Inr []"
    using T by blast
  have c2: "validatePatternProperties (validatorEnv 2) (JObj patternInstance) patternSchema rootContext
      = bindE (foldE (patternOrAdditional (validatorEnv 2) patternSchema rootContext ?pp)
                 (ValidatorResult (JObj patternInstance) patternSchema rootContext)
                 (map fst patternInstance))
          (\<lambda>r. Inr (RResult r))"
    using T by blast
  have "contributed []
          (bindE (foldE (patternOrAdditional (validatorEnv 2) patternSchema rootContext ?pp)
                 (ValidatorResult (JObj patternInstance) patternSchema rootContext)
                 (map fst patternInstance))
          (\<lambda>r. Inr (RResult r)))
      = Inr [\<lparr>message = ''does not exist in the schema'', property = JStr ''y''\<rparr>]"
    by code_simp
  then show ?thesis
    using c1 c2 by simp
qed


theorem exclusive_branches_outcome_witness:
  "contributed [] (validateOneOf (validatorEnv 5) contradictoryInstance contradictorySchema rootContext)
     = Inr [\<lparr>message = ''is not one of enum values: 3,4'', property = JStr ''prop1''\<rparr>]"
proof -
  have "validateOneOf (validatorEnv 5) contradictoryInstance contradictorySchema rootContext
      = Inr (exclusiveOutcome
               (''is not exactly one from '' @ memberLabel (contradictoryBranches ! 0) ''[subschema 0]''
                  @ '','' @ memberLabel (contradictoryBranches ! 1) ''[subschema 1]'')
               (resultOf (this_validateSchema (validatorEnv 5) contradictoryInstance
                            (contradictoryBranches ! 0) rootContext))
               (resultOf (this_validateSchema (validatorEnv 5) contradictoryInstance
                            (contradictoryBranches ! 1) rootContext)))"
    by (rule exclusive_branches_outcome) (code_simp+)
  moreover have "contributed []
       (Inr (exclusiveOutcome
               (''is not exactly one from '' @ memberLabel (contradictoryBranches ! 0) ''[subschema 0]''
                  @ '','' @ memberLabel (contradictoryBranches ! 1) ''[subschema 1]'')
               (resultOf (this_validateSchema (validatorEnv 5) contradictoryInstance
                            (contradictoryBranches ! 0) rootContext))
               (resultOf (this_validateSchema (validatorEnv 5) contradictoryInstance
                            (contradictoryBranches ! 1) rootContext))))
     = Inr [\<lparr>message = ''is not one of enum values: 3,4'', property = JStr ''prop1''\<rparr>]"
    by code_simp
  ultimately show ?thesis by simp
qed

theorem detection_leaves_schema_unchanged_witness:
  "hasMutuallyExclusiveDependencies_h 5 exampleStore [HRef 3, HRef 6]
     = (Inr True,
        exampleStore @ [HObject [(''required'', HStr ''r'')],
                        HObject [(''required'', HStr ''r'')],
                        HObject [(''required'', HStr ''r'')]])
   \<and> take (length exampleStore)
         (exampleStore @ [HObject [(''required'', HStr ''r'')],
                          HObject [(''required'', HStr ''r'')],
                          HObject [(''required'', HStr ''r'')]]) = exampleStore
   \<and> reify 5 (exampleStore @ [HObject [(''required'', HStr ''r'')],
                               HObject [(''required'', HStr ''r'')],
                               HObject [(''required'', HStr ''r'')]]) (HRef 3)
       = Some (JObj [(''dependencies'',
                 JObj [(''p'', JObj [(''not'', JObj [(''required'', JStr ''r'')])])])])
   \<and> hasMutuallyExclusiveDependencies
         [JObj [(''dependencies'',
                 JObj [(''p'', JObj [(''not'', JObj [(''required'', JStr ''r'')])])])],
          JObj [(''dependencies'', JObj [(''p'', JObj [(''required'', JStr ''r'')])])]]
       = Inr True"
proof -
  have tree: "reify 5 (exampleStore @ [HObject [(''required'', HStr ''r'')],
                               HObject [(''required'', HStr ''r'')],
                               HObject [(''required'', HStr ''r'')]]) (HRef 3)
       = Some (JObj [(''dependencies'',
                 JObj [(''p'', JObj [(''not'', JObj [(''required'', JStr ''r'')])])])])"
    by code_simp
  have verdict: "hasMutuallyExclusiveDependencies
         [JObj [(''dependencies'',
                 JObj [(''p'', JObj [(''not'', JObj [(''required'', JStr ''r'')])])])],
          JObj [(''dependencies'', JObj [(''p'', JObj [(''required'', JStr ''r'')])])]]
       = Inr True"
    by code_simp
  have run: "hasMutuallyExclusiveDependencies_h 5 exampleStore [HRef 3, HRef 6]
     = (Inr True,
        exampleStore @ [HObject [(''required'', HStr ''r'')],
                        HObject [(''required'', HStr ''r'')],
                        HObject [(''required'', HStr ''r'')]])"
    by code_simp
  show ?thesis
    using detection_leaves_schema_unchanged [OF run] run tree verdict by blast
qed

text \<open>The schema \<open>{oneOf: [{enum: ['1']}]}\<close> and the instance \<open>'5'\<close>: the branch fails
  with one error, and the orchestrator reports none for the schema.\<close>

theorem oneOf_single_failing_branch_accepted_witness:
  "resultMessages (this_validateSchema (validatorEnv 2) (JStr ''5'') singleBranch rootContext)
       = Inr [''is not one of enum values: 1'']
   \<and> hasMutuallyExclusiveDependencies [singleBranch] = Inr False
   \<and> hasNoDependencies [singleBranch] = Inr True
   \<and> validateOneOf (validatorEnv 2) (JStr ''5'') singleBranchSchema rootContext = Inr RNull
   \<and> resultMessages (orchestrate (validatorEnv 2) (JStr ''5'') singleBranchSchema rootContext)
       = Inr []"
proof -
  have v: "validateOneOf (validatorEnv 2) (JStr ''5'') singleBranchSchema rootContext = Inr RNull"
    by (rule oneOf_single_failing_branch_accepted [where b = singleBranch and d = JUndefined
          and r = "resultOf (this_validateSchema (validatorEnv 2) (JStr ''5'') singleBranch rootContext)"])
       (code_simp+)
  have rest: "resultMessages (this_validateSchema (validatorEnv 2) (JStr ''5'') singleBranch rootContext)
       = Inr [''is not one of enum values: 1'']
   \<and> hasMutuallyExclusiveDependencies [singleBranch] = Inr False
   \<and> hasNoDependencies [singleBranch] = Inr True
   \<and> resultMessages (orchestrate (validatorEnv 2) (JStr ''5'') singleBranchSchema rootContext)
       = Inr []"
    by code_simp
  show ?thesis using v rest by blast
qed


section \<open>Inputs on which a reading of the specification fails\<close>


theorem mixed_failure_not_reported:
  "hasMutuallyExclusiveDependencies twoKeyBranches = Inr True
   \<and> resultMessages (this_validateSchema (validatorEnv 5) twoKeyInstance (twoKeyBranches ! 0) rootContext)
       = Inr [''does not meet dependency required by p'', ''is required'',
              ''is not one of enum values: 1,2'']
   \<and> resultMessages (this_validateSchema (validatorEnv 5) twoKeyInstance (twoKeyBranches ! 1) rootContext)
       = Inr [''does not meet dependency required by s'', ''can not be present'']
   \<and> validateOneOf (validatorEnv 5) twoKeyInstance twoKeySchema rootContext
       = Inr (RMsg ''is not exactly one from [subschema 0],[subschema 1]'')"
  by code_simp

end
